theory Spec2Isabelle
  imports Complex_Main "HOL-Library.AList" "HOL-Library.Char_ord" "HOL-Library.List_Lexorder"
    "HOL-Library.Sublist"
begin

text \<open>
  A model of \<^verbatim>\<open>parse.py\<close>, the script that sends every PDF of a directory to a Grobid server
  and stores the TEI document and a metadata record per paper, and the properties of its
  retry loop, its driver loop and the files it writes.

  The script is modelled as state passing over a world: a file system, the number of
  requests made so far, and the list of the observable events. A function returns
  \<open>Inl e\<close> where the code raises the exception \<open>e\<close>, and \<open>Inr ()\<close> where it returns. The
  service is a parameter: a function from the number of requests made before to the reply.
  Floating-point durations are real numbers. Permissions, other processes and exceptions
  outside \<^verbatim>\<open>Exception\<close> are outside the model.
\<close>

section \<open>Strings and paths\<close>

text \<open>
  Python strings are modelled as \<open>string\<close>; a character stands for a code point below 256.
  \<open>isspace\<close> lists the code points below 256 that \<^verbatim>\<open>str.strip()\<close> removes.
\<close>

definition isspace :: "char \<Rightarrow> bool" where
  "isspace c = (of_char c \<in> {9, 10, 11, 12, 13, 28, 29, 30, 31, 32, 133, 160 :: nat})"

definition strip :: "string \<Rightarrow> string" where
  "strip s = rev (dropWhile isspace (rev (dropWhile isspace s)))"

fun startswith :: "string \<Rightarrow> string \<Rightarrow> bool" where
  "startswith [] s = True"
| "startswith (p # ps) [] = False"
| "startswith (p # ps) (c # cs) = (p = c \<and> startswith ps cs)"

text \<open>\<open>contains sub s\<close> is Python's \<^verbatim>\<open>sub in s\<close>.\<close>

fun contains :: "string \<Rightarrow> string \<Rightarrow> bool" where
  "contains sub [] = (sub = [])"
| "contains sub (c # cs) = (startswith sub (c # cs) \<or> contains sub cs)"

definition endswith :: "string \<Rightarrow> string \<Rightarrow> bool" where
  "endswith suf s = startswith (rev suf) (rev s)"

text \<open>\<open>rfind c s\<close> is the index of the last occurrence of \<open>c\<close> in \<open>s\<close>, if any.\<close>

fun rfind :: "char \<Rightarrow> string \<Rightarrow> nat option" where
  "rfind c [] = None"
| "rfind c (x # xs) =
     (case rfind c xs of
        Some i \<Rightarrow> Some (Suc i)
      | None \<Rightarrow> if x = c then Some 0 else None)"

text \<open>
  \<^verbatim>\<open>PurePath.stem\<close>: the name without its last suffix; a dot in first or last position
  does not start a suffix.
\<close>

definition stem :: "string \<Rightarrow> string" where
  "stem nm =
     (case rfind CHR ''.'' nm of
        None \<Rightarrow> nm
      | Some i \<Rightarrow> if 0 < i \<and> Suc i < length nm then take i nm else nm)"

text \<open>
  A path is the list of its components below the file-system root. Joining drops an empty
  component and the component \<^verbatim>\<open>.\<close>, as \<^verbatim>\<open>pathlib\<close> does. Paths are compared as component lists:
  aliasing through \<^verbatim>\<open>..\<close> components or links is outside the model.
\<close>

type_synonym path = "string list"

definition parent :: "path \<Rightarrow> path" where
  "parent p = butlast p"

definition name :: "path \<Rightarrow> string" where
  "name p = (if p = [] then [] else last p)"

definition joinpath :: "path \<Rightarrow> string \<Rightarrow> path" where
  "joinpath p c = (if c = [] \<or> c = ''.'' then p else p @ [c])"

section \<open>Exceptions\<close>

datatype errno = ENOENT | EEXIST | ENOTDIR | EISDIR

text \<open>
  \<open>HTTPError\<close> is the subclass of \<open>RequestException\<close> that \<^verbatim>\<open>raise_for_status\<close> raises.
  \<open>OSError\<close> stands for the file-system errors, \<open>OverflowError\<close> and \<open>ValueError\<close> are raised
  by \<^verbatim>\<open>time.sleep\<close> (and \<open>ValueError\<close> by the check of the response), \<open>OtherException\<close> stands
  for any further subclass of \<^verbatim>\<open>Exception\<close>.
\<close>

datatype exn =
    RequestException string
  | HTTPError nat
  | ValueError string
  | OSError errno
  | OverflowError string
  | OtherException string

fun is_RequestException :: "exn \<Rightarrow> bool" where
  "is_RequestException (RequestException m) = True"
| "is_RequestException (HTTPError s) = True"
| "is_RequestException e = False"

section \<open>The file system\<close>

record meta =
  paper_id :: string
  forum :: string
  title :: string
  pdf_url :: string
  source_path :: path

text \<open>
  File contents: text (the PDFs, the TEI documents and any other file), or the value that
  \<^verbatim>\<open>json.dump\<close> serialises. An entry of the error log keeps the exception itself where the
  code stores its \<^verbatim>\<open>repr\<close>.
\<close>

datatype content =
    Text string
  | MetaJson meta
  | ErrorsJson "(nat \<times> string \<times> exn) list"

datatype node = Dir | File content

type_synonym filesystem = "(path \<times> node) list"

definition lookup :: "filesystem \<Rightarrow> path \<Rightarrow> node option" where
  "lookup fs p = map_of fs p"

definition store :: "path \<Rightarrow> node \<Rightarrow> filesystem \<Rightarrow> filesystem" where
  "store p n fs = AList.update p n fs"

definition exists :: "path \<Rightarrow> filesystem \<Rightarrow> bool" where
  "exists p fs = (lookup fs p \<noteq> None)"

text \<open>The file at a path, when there is a regular file there.\<close>

definition file_at :: "filesystem \<Rightarrow> path \<Rightarrow> content option" where
  "file_at fs p = (case lookup fs p of Some (File c) \<Rightarrow> Some c | _ \<Rightarrow> None)"

text \<open>\<^verbatim>\<open>os.mkdir\<close>: creates one directory, whose parent must be a directory.\<close>

definition os_mkdir :: "path \<Rightarrow> filesystem \<Rightarrow> exn + filesystem" where
  "os_mkdir p fs =
     (case lookup fs p of
        Some n \<Rightarrow> Inl (OSError EEXIST)
      | None \<Rightarrow>
          (case lookup fs (parent p) of
             None \<Rightarrow> Inl (OSError ENOENT)
           | Some (File c) \<Rightarrow> Inl (OSError ENOTDIR)
           | Some Dir \<Rightarrow> Inr (store p Dir fs)))"

text \<open>\<^verbatim>\<open>Path.mkdir(parents=False, exist_ok=True)\<close>.\<close>

definition mkdir_leaf :: "path \<Rightarrow> filesystem \<Rightarrow> (exn + unit) \<times> filesystem" where
  "mkdir_leaf p fs =
     (case os_mkdir p fs of
        Inr fs' \<Rightarrow> (Inr (), fs')
      | Inl e \<Rightarrow>
          if e = OSError ENOENT then (Inl e, fs)
          else if lookup fs p = Some Dir then (Inr (), fs)
          else (Inl e, fs))"

text \<open>
  \<^verbatim>\<open>Path.mkdir(parents=True, exist_ok=True)\<close>: on a missing parent it creates the parent
  first and tries again; another error is swallowed when the path is a directory already.
\<close>

function mkdir :: "path \<Rightarrow> filesystem \<Rightarrow> (exn + unit) \<times> filesystem" where
  "mkdir p fs =
     (case os_mkdir p fs of
        Inr fs' \<Rightarrow> (Inr (), fs')
      | Inl e \<Rightarrow>
          if e = OSError ENOENT then
            (if p = [] then (Inl e, fs)
             else (case mkdir (parent p) fs of
                     (Inl e', fs') \<Rightarrow> (Inl e', fs')
                   | (Inr u, fs') \<Rightarrow> mkdir_leaf p fs'))
          else if lookup fs p = Some Dir then (Inr (), fs)
          else (Inl e, fs))"
  by pat_completeness auto
termination
  by (relation "measure (\<lambda>(p, fs). length p)") (auto simp: parent_def)

declare mkdir.simps [simp del]

text \<open>\<^verbatim>\<open>open(p, "rb")\<close>: the path must be a regular file.\<close>

definition open_rb :: "path \<Rightarrow> filesystem \<Rightarrow> exn + content" where
  "open_rb p fs =
     (case lookup fs p of
        None \<Rightarrow> Inl (OSError ENOENT)
      | Some Dir \<Rightarrow> Inl (OSError EISDIR)
      | Some (File c) \<Rightarrow> Inr c)"

text \<open>
  \<^verbatim>\<open>open(p, "w")\<close> followed by the write of the whole content: the file is created in an
  existing directory or replaced; a directory cannot be opened.
\<close>

definition write_file :: "path \<Rightarrow> content \<Rightarrow> filesystem \<Rightarrow> exn + filesystem" where
  "write_file p c fs =
     (case lookup fs p of
        Some Dir \<Rightarrow> Inl (OSError EISDIR)
      | Some (File old) \<Rightarrow> Inr (store p (File c) fs)
      | None \<Rightarrow>
          (case lookup fs (parent p) of
             None \<Rightarrow> Inl (OSError ENOENT)
           | Some (File d) \<Rightarrow> Inl (OSError ENOTDIR)
           | Some Dir \<Rightarrow> Inr (store p (File c) fs)))"

text \<open>The entries of a directory, and \<^verbatim>\<open>Path.glob("*.pdf")\<close> (hidden files included).\<close>

definition listdir :: "path \<Rightarrow> filesystem \<Rightarrow> string list" where
  "listdir d fs =
     (if lookup fs d = Some Dir
      then remdups (map last (filter (\<lambda>p. p \<noteq> [] \<and> butlast p = d) (map fst fs)))
      else [])"

definition glob_pdf :: "path \<Rightarrow> filesystem \<Rightarrow> path list" where
  "glob_pdf d fs = map (\<lambda>n. d @ [n]) (filter (endswith ''.pdf'') (listdir d fs))"

section \<open>The world: file system, service, observable events\<close>

datatype message =
    MsgNoPdfs path
  | MsgUsingGrobid string
  | MsgSleep real
  | MsgParsingFrom path
  | MsgWritingUnder path
  | MsgDone nat
  | MsgParseErrors nat
  | MsgErrorDetails path

text \<open>
  The events of a run, in the order they happen: the enumeration of a directory, an HTTP
  POST of a PDF to a URL, a completed sleep, a completed write of a file, a printed line.
\<close>

datatype event =
    Glob path
  | Post string path
  | Sleep real
  | Write path
  | Print message

text \<open>
  What \<^verbatim>\<open>requests.post\<close> does on one call: it raises, or it returns a response with a
  status code and a body. The service is a function of the number of calls made before.
\<close>

datatype reply = Raises exn | Response nat string

type_synonym service = "nat \<Rightarrow> reply"

record world =
  disk :: filesystem
  posts :: nat
  trace :: "event list"

record config =
  GROBID_URL :: string
  GROBID_SLEEP :: real

definition emit :: "event \<Rightarrow> world \<Rightarrow> world" where
  "emit e w = w\<lparr>trace := trace w @ [e]\<rparr>"

text \<open>
  \<^verbatim>\<open>time.sleep\<close> first converts the duration to a 64-bit count of nanoseconds and raises
  \<open>OverflowError\<close> when that is out of range, then it rejects a negative duration with
  \<open>ValueError\<close>. \<open>SLEEP_MAX\<close> is the largest and \<open>SLEEP_MIN\<close> the smallest double that the
  conversion accepts (about 9.22e9 seconds, 292 years). A duration is a real number here: the
  rounding of a floating-point product to the nearest double is not modelled; the two limits
  are doubles, so that it can matter only for a product within half a unit in the last place
  of a limit. The infinities are rejected like every value beyond the limits; NaN, which
  \<^verbatim>\<open>time.sleep\<close> rejects too, has no counterpart.
\<close>

definition SLEEP_MAX :: real where
  "SLEEP_MAX = 1208925819614629 / 131072"

definition SLEEP_MIN :: real where
  "SLEEP_MIN = - (4835703278458517 / 524288)"

definition sleep :: "real \<Rightarrow> world \<Rightarrow> (exn + unit) \<times> world" where
  "sleep d w =
     (if d < SLEEP_MIN \<or> SLEEP_MAX < d
      then (Inl (OverflowError ''timestamp out of range for platform time_t''), w)
      else if d < 0 then (Inl (ValueError ''sleep length must be non-negative''), w)
      else (Inr (), emit (Sleep d) w))"

definition rstrip_slash :: "string \<Rightarrow> string" where
  "rstrip_slash s = rev (dropWhile (\<lambda>c. c = CHR ''/'') (rev s))"

definition api_url :: "config \<Rightarrow> string" where
  "api_url cfg = rstrip_slash (GROBID_URL cfg) @ ''/api/processFulltextDocument''"

section \<open>grobid_process_fulltext\<close>

text \<open>
  The body of the \<^verbatim>\<open>try\<close> of one attempt: open the PDF, post it, check the status, check
  the text, write the output file.
\<close>

definition attempt_once ::
  "config \<Rightarrow> service \<Rightarrow> path \<Rightarrow> path \<Rightarrow> world \<Rightarrow> (exn + unit) \<times> world" where
  "attempt_once cfg srv pdf_path output_xml_path w =
     (case open_rb pdf_path (disk w) of
        Inl e \<Rightarrow> (Inl e, w)
      | Inr f \<Rightarrow>
          (let w1 = emit (Post (api_url cfg) pdf_path) (w\<lparr>posts := posts w + 1\<rparr>) in
           case srv (posts w) of
             Raises e \<Rightarrow> (Inl e, w1)
           | Response status_code body \<Rightarrow>
               if 400 \<le> status_code \<and> status_code < 600 then (Inl (HTTPError status_code), w1)
               else
                 (let text = strip body in
                  if text = [] \<or> \<not> contains ''<TEI'' text
                  then (Inl (ValueError ''Grobid returned empty or non-TEI response''), w1)
                  else
                    (case write_file output_xml_path (Text text) (disk w1) of
                       Inl e \<Rightarrow> (Inl e, w1)
                     | Inr fs' \<Rightarrow> (Inr (), emit (Write output_xml_path) (w1\<lparr>disk := fs'\<rparr>))))))"

text \<open>
  The \<^verbatim>\<open>for attempt in range(1, retries + 1)\<close> loop, over the list of the attempt numbers
  still to run. The variable \<^verbatim>\<open>last_err\<close> is assigned and never read, and is left out.
\<close>

fun attempts ::
  "config \<Rightarrow> service \<Rightarrow> path \<Rightarrow> path \<Rightarrow> int \<Rightarrow> real \<Rightarrow> int list \<Rightarrow> world
     \<Rightarrow> (exn + unit) \<times> world" where
  "attempts cfg srv pdf_path output_xml_path retries backoff [] w = (Inr (), w)"
| "attempts cfg srv pdf_path output_xml_path retries backoff (attempt # rest) w =
     (case attempt_once cfg srv pdf_path output_xml_path w of
        (Inr u, w') \<Rightarrow> (Inr (), w')
      | (Inl e, w') \<Rightarrow>
          if is_RequestException e then
            (if attempt < retries then
               (case sleep (backoff * of_int attempt) w' of
                  (Inl e', w'') \<Rightarrow> (Inl e', w'')
                | (Inr u, w'') \<Rightarrow>
                    attempts cfg srv pdf_path output_xml_path retries backoff rest w'')
             else (Inl e, w'))
          else (Inl e, w'))"

definition grobid_process_fulltext ::
  "config \<Rightarrow> service \<Rightarrow> path \<Rightarrow> path \<Rightarrow> int \<Rightarrow> real \<Rightarrow> world \<Rightarrow> (exn + unit) \<times> world" where
  "grobid_process_fulltext cfg srv pdf_path output_xml_path retries backoff w =
     (case mkdir (parent output_xml_path) (disk w) of
        (Inl e, fs') \<Rightarrow> (Inl e, w\<lparr>disk := fs'\<rparr>)
      | (Inr u, fs') \<Rightarrow>
          attempts cfg srv pdf_path output_xml_path retries backoff [1..retries] (w\<lparr>disk := fs'\<rparr>))"

section \<open>parse_pdfs_directory\<close>

definition safe_title :: "string \<Rightarrow> string" where
  "safe_title raw_title = strip raw_title"

definition folder_name :: "path \<Rightarrow> string" where
  "folder_name pdf_path = stem (name pdf_path)"

definition paper_dir :: "path \<Rightarrow> path \<Rightarrow> path" where
  "paper_dir output_root pdf_path = joinpath output_root (folder_name pdf_path)"

definition tei_path :: "path \<Rightarrow> path \<Rightarrow> path" where
  "tei_path output_root pdf_path =
     joinpath (paper_dir output_root pdf_path) (folder_name pdf_path @ ''.tei.xml'')"

definition meta_path :: "path \<Rightarrow> path \<Rightarrow> path" where
  "meta_path output_root pdf_path = joinpath (paper_dir output_root pdf_path) ''meta.json''"

definition error_log_path :: "path \<Rightarrow> path" where
  "error_log_path output_root = joinpath output_root ''grobid_errors_local.json''"

definition make_meta :: "path \<Rightarrow> meta" where
  "make_meta pdf_path =
     \<lparr>paper_id = folder_name pdf_path, forum = [], title = safe_title (folder_name pdf_path),
      pdf_url = [], source_path = pdf_path\<rparr>"

text \<open>
  The \<^verbatim>\<open>try\<close> block of the loop body for one PDF, with the default \<^verbatim>\<open>retries = 3\<close> and
  \<^verbatim>\<open>backoff = 5.0\<close> of the call.
\<close>

definition try_item :: "config \<Rightarrow> service \<Rightarrow> path \<Rightarrow> path \<Rightarrow> world \<Rightarrow> (exn + unit) \<times> world" where
  "try_item cfg srv output_root pdf_path w =
     (case grobid_process_fulltext cfg srv pdf_path (tei_path output_root pdf_path) 3 5 w of
        (Inl e, w1) \<Rightarrow> (Inl e, w1)
      | (Inr u, w1) \<Rightarrow>
          (case (if GROBID_SLEEP cfg > 0 then sleep (GROBID_SLEEP cfg) w1 else (Inr (), w1)) of
             (Inl e, w2) \<Rightarrow> (Inl e, w2)
           | (Inr u, w2) \<Rightarrow>
               if \<not> exists (meta_path output_root pdf_path) (disk w2) then
                 (case mkdir (paper_dir output_root pdf_path) (disk w2) of
                    (Inl e, fs3) \<Rightarrow> (Inl e, w2\<lparr>disk := fs3\<rparr>)
                  | (Inr u, fs3) \<Rightarrow>
                      (case write_file (meta_path output_root pdf_path)
                              (MetaJson (make_meta pdf_path)) fs3 of
                         Inl e \<Rightarrow> (Inl e, w2\<lparr>disk := fs3\<rparr>)
                       | Inr fs4 \<Rightarrow>
                           (Inr (), emit (Write (meta_path output_root pdf_path))
                                      (w2\<lparr>disk := fs4\<rparr>))))
               else (Inr (), w2)))"

type_synonym errors = "(nat \<times> string \<times> exn) list"

text \<open>
  The \<^verbatim>\<open>for idx, pdf_path in enumerate(pdf_paths, start=1)\<close> loop; the \<^verbatim>\<open>except Exception\<close>
  handler appends to \<^verbatim>\<open>errors_parse\<close>. The progress bar of \<^verbatim>\<open>tqdm\<close> is not modelled.
\<close>

fun parse_loop ::
  "config \<Rightarrow> service \<Rightarrow> path \<Rightarrow> (nat \<times> path) list \<Rightarrow> world \<times> errors \<Rightarrow> world \<times> errors" where
  "parse_loop cfg srv output_root [] acc = acc"
| "parse_loop cfg srv output_root ((idx, pdf_path) # rest) (w, errors_parse) =
     (case try_item cfg srv output_root pdf_path w of
        (Inl e, w') \<Rightarrow>
          parse_loop cfg srv output_root rest
            (w', errors_parse @ [(idx, folder_name pdf_path, e)])
      | (Inr u, w') \<Rightarrow> parse_loop cfg srv output_root rest (w', errors_parse))"

definition banner :: "config \<Rightarrow> path \<Rightarrow> path \<Rightarrow> event list" where
  "banner cfg input_dir output_root =
     [Print (MsgUsingGrobid (GROBID_URL cfg)), Print (MsgSleep (GROBID_SLEEP cfg)),
      Print (MsgParsingFrom input_dir), Print (MsgWritingUnder output_root)]"

text \<open>The lines after the loop: the two totals, then the error log when there are errors.\<close>

definition report :: "path \<Rightarrow> nat \<Rightarrow> errors \<Rightarrow> world \<Rightarrow> (exn + unit) \<times> world" where
  "report output_root n_total errors_parse w =
     (let w3 = w\<lparr>trace := trace w @ [Print (MsgDone n_total),
                                      Print (MsgParseErrors (length errors_parse))]\<rparr> in
      if errors_parse \<noteq> [] then
        (case write_file (error_log_path output_root) (ErrorsJson errors_parse) (disk w3) of
           Inl e \<Rightarrow> (Inl e, w3)
         | Inr fs' \<Rightarrow>
             (Inr (), emit (Print (MsgErrorDetails (error_log_path output_root)))
                        (emit (Write (error_log_path output_root)) (w3\<lparr>disk := fs'\<rparr>))))
      else (Inr (), w3))"

definition parse_pdfs_directory ::
  "config \<Rightarrow> service \<Rightarrow> path \<Rightarrow> path \<Rightarrow> world \<Rightarrow> (exn + unit) \<times> world" where
  "parse_pdfs_directory cfg srv input_dir output_root w =
     (case mkdir output_root (disk w) of
        (Inl e, fs0) \<Rightarrow> (Inl e, w\<lparr>disk := fs0\<rparr>)
      | (Inr u, fs0) \<Rightarrow>
          (let w0 = emit (Glob input_dir) (w\<lparr>disk := fs0\<rparr>);
               pdf_paths = sort (glob_pdf input_dir fs0)
           in if pdf_paths = [] then (Inr (), emit (Print (MsgNoPdfs input_dir)) w0)
              else
                (case parse_loop cfg srv output_root (enumerate 1 pdf_paths)
                        (w0\<lparr>trace := trace w0 @ banner cfg input_dir output_root\<rparr>, []) of
                   (w2, errors_parse) \<Rightarrow>
                     report output_root (length pdf_paths) errors_parse w2)))"

text \<open>\<open>main\<close>, with the directory of the script as a parameter.\<close>

definition main :: "config \<Rightarrow> service \<Rightarrow> path \<Rightarrow> world \<Rightarrow> (exn + unit) \<times> world" where
  "main cfg srv repo_root w =
     (if \<not> exists (joinpath repo_root ''pdfs'') (disk w) then (Inl (OSError ENOENT), w)
      else parse_pdfs_directory cfg srv (joinpath repo_root ''pdfs'')
             (joinpath repo_root ''pdfs_parsed'') w)"

section \<open>Vocabulary of the properties\<close>

text \<open>
  \<open>dirs_added p fs fs'\<close>: from \<open>fs\<close> to \<open>fs'\<close> nothing changed but directories that were
  created at missing prefixes of \<open>p\<close>.
\<close>

definition dirs_added :: "path \<Rightarrow> filesystem \<Rightarrow> filesystem \<Rightarrow> bool" where
  "dirs_added p fs fs' =
     (\<forall>q. lookup fs' q = lookup fs q \<or>
          (lookup fs q = None \<and> lookup fs' q = Some Dir \<and> prefix q p))"

text \<open>
  The network error an attempt ends with, given the reply to its request: an exception of
  class \<open>RequestException\<close> raised by the request, or an error status.
\<close>

definition net_error :: "reply \<Rightarrow> exn option" where
  "net_error rp =
     (case rp of
        Raises e \<Rightarrow> if is_RequestException e then Some e else None
      | Response status_code body \<Rightarrow>
          if 400 \<le> status_code \<and> status_code < 600 then Some (HTTPError status_code) else None)"

text \<open>The durations that \<^verbatim>\<open>time.sleep\<close> accepts.\<close>

definition sleepable :: "real \<Rightarrow> bool" where
  "sleepable d = (0 \<le> d \<and> d \<le> SLEEP_MAX)"

text \<open>
  The world after a request was sent, and the events of a run of attempts that all failed
  with a network error: each request is followed by the sleep of the backoff.
\<close>

definition posted :: "config \<Rightarrow> path \<Rightarrow> world \<Rightarrow> world" where
  "posted cfg pdf_path w = emit (Post (api_url cfg) pdf_path) (w\<lparr>posts := posts w + 1\<rparr>)"


text \<open>
  Kinds of events. A \<open>call_event\<close> of an item is a request for its PDF or a sleep; a
  \<open>persist_event\<close> is a write of its TEI file or of its \<^verbatim>\<open>meta.json\<close>, or a sleep.
\<close>

fun is_Post :: "event \<Rightarrow> bool" where
  "is_Post (Post u p) = True"
| "is_Post e = False"

fun is_Sleep :: "event \<Rightarrow> bool" where
  "is_Sleep (Sleep d) = True"
| "is_Sleep e = False"

definition call_event :: "config \<Rightarrow> path \<Rightarrow> event \<Rightarrow> bool" where
  "call_event cfg pdf_path e = (e = Post (api_url cfg) pdf_path \<or> is_Sleep e)"

text \<open>The texts that pass the check of the response, and the world after a successful attempt.\<close>

definition tei_text :: "string \<Rightarrow> bool" where
  "tei_text t = (t \<noteq> [] \<and> contains ''<TEI'' t)"

definition wrote_tei :: "config \<Rightarrow> path \<Rightarrow> path \<Rightarrow> string \<Rightarrow> world \<Rightarrow> world" where
  "wrote_tei cfg pdf_path output_xml_path t w =
     emit (Write output_xml_path)
       ((posted cfg pdf_path w)\<lparr>disk := store output_xml_path (File (Text t)) (disk w)\<rparr>)"

definition persist_event :: "path \<Rightarrow> path \<Rightarrow> event \<Rightarrow> bool" where
  "persist_event output_root pdf_path e =
     (e = Write (tei_path output_root pdf_path) \<or> e = Write (meta_path output_root pdf_path) \<or> is_Sleep e)"

text \<open>
  The events of one item: first requests for its PDF and sleeps, then writes of its TEI file
  and of its \<^verbatim>\<open>meta.json\<close> and sleeps, so that no request follows a write. When anything is
  written, the event before the first write is a request for the PDF, and the first write is
  that of the TEI file.
\<close>

definition item_segment :: "config \<Rightarrow> path \<Rightarrow> path \<Rightarrow> event list \<Rightarrow> bool" where
  "item_segment cfg output_root pdf_path seg =
     (let calls = takeWhile (call_event cfg pdf_path) seg;
          persists = dropWhile (call_event cfg pdf_path) seg
      in list_all (persist_event output_root pdf_path) persists \<and>
         (persists \<noteq> [] \<longrightarrow>
            calls \<noteq> [] \<and> last calls = Post (api_url cfg) pdf_path \<and>
            hd persists = Write (tei_path output_root pdf_path)))"

text \<open>
  \<open>changes output_root S fs fs'\<close>: what the processing of the PDFs in \<open>S\<close> may do to the file
  system. Every path is as before, or a directory was created at a missing prefix of the
  folder of a PDF, or the TEI file of a PDF was written with a text that passed the check
  (never in place of a directory), or the \<^verbatim>\<open>meta.json\<close> of a PDF was created where nothing was.
\<close>

definition changes :: "path \<Rightarrow> path set \<Rightarrow> filesystem \<Rightarrow> filesystem \<Rightarrow> bool" where
  "changes output_root S fs fs' =
     (\<forall>p. lookup fs' p = lookup fs p
        \<or> (lookup fs p = None \<and> lookup fs' p = Some Dir \<and>
            (\<exists>pdf\<in>S. prefix p (paper_dir output_root pdf)))
        \<or> (lookup fs p \<noteq> Some Dir \<and> (\<exists>pdf\<in>S. p = tei_path output_root pdf) \<and>
            (\<exists>t. lookup fs' p = Some (File (Text t)) \<and> tei_text t))
        \<or> (lookup fs p = None \<and>
            (\<exists>pdf\<in>S. p = meta_path output_root pdf \<and>
                       lookup fs' p = Some (File (MetaJson (make_meta pdf))))))"

text \<open>
  The rest of the \<^verbatim>\<open>try\<close> block after a successful call: the throttle, then \<^verbatim>\<open>meta.json\<close> when
  it does not exist. \<open>start_world\<close> is the world in which the loop starts.
\<close>

definition finish :: "config \<Rightarrow> path \<Rightarrow> path \<Rightarrow> world \<Rightarrow> world" where
  "finish cfg output_root pdf_path w1 =
     (let w2 = (if GROBID_SLEEP cfg > 0 then emit (Sleep (GROBID_SLEEP cfg)) w1 else w1)
      in if exists (meta_path output_root pdf_path) (disk w2) then w2
         else emit (Write (meta_path output_root pdf_path))
                (w2\<lparr>disk := store (meta_path output_root pdf_path)
                                (File (MetaJson (make_meta pdf_path))) (disk w2)\<rparr>))"

definition start_world :: "config \<Rightarrow> path \<Rightarrow> path \<Rightarrow> filesystem \<Rightarrow> world \<Rightarrow> world" where
  "start_world cfg input_dir output_root fs0 w =
     w\<lparr>disk := fs0, trace := trace w @ Glob input_dir # banner cfg input_dir output_root\<rparr>"

text \<open>
  The loop, item by item. \<open>item_start \<dots> w0 i\<close> is the world in which the loop, started in
  \<open>w0\<close>, reaches the item at index \<open>i\<close> (from 0) of \<open>pdf_paths\<close>: the world after the first
  \<open>i\<close> items. \<open>item_run \<dots> w0 i\<close> is the \<^verbatim>\<open>try\<close> block of that item, run in that world.
  \<open>success_events\<close> are the events that follow the last request of an item that succeeds, given
  the file system at the start of the item: the write of the TEI file, the throttle, and the
  write of \<^verbatim>\<open>meta.json\<close> when there is none.
\<close>

definition item_start :: "config \<Rightarrow> service \<Rightarrow> path \<Rightarrow> path list \<Rightarrow> world \<Rightarrow> nat \<Rightarrow> world" where
  "item_start cfg srv output_root pdf_paths w0 i =
     fst (parse_loop cfg srv output_root (enumerate 1 (take i pdf_paths)) (w0, []))"

definition item_run ::
  "config \<Rightarrow> service \<Rightarrow> path \<Rightarrow> path list \<Rightarrow> world \<Rightarrow> nat \<Rightarrow> (exn + unit) \<times> world" where
  "item_run cfg srv output_root pdf_paths w0 i =
     try_item cfg srv output_root (pdf_paths ! i) (item_start cfg srv output_root pdf_paths w0 i)"

definition success_events :: "config \<Rightarrow> path \<Rightarrow> path \<Rightarrow> filesystem \<Rightarrow> event list" where
  "success_events cfg output_root pdf_path fs =
     [Write (tei_path output_root pdf_path)]
     @ (if GROBID_SLEEP cfg > 0 then [Sleep (GROBID_SLEEP cfg)] else [])
     @ (if exists (meta_path output_root pdf_path) fs then []
        else [Write (meta_path output_root pdf_path)])"

section \<open>Example worlds\<close>

text \<open>
  Concrete configurations, file systems and services on which the theorems are instantiated:
  an input directory \<^verbatim>\<open>pdfs\<close> with one or two PDFs, an output root \<^verbatim>\<open>out\<close>, and services that
  time out, answer with blanks, or answer with a document.
\<close>

definition cfgW :: config where
  "cfgW = \<lparr>GROBID_URL = ''http://localhost:8070'', GROBID_SLEEP = 1 / 5\<rparr>"

definition diskW :: filesystem where
  "diskW = [([], Dir), ([''pdfs''], Dir), ([''pdfs'', ''a.pdf''], File (Text ''%PDF-1.7'')),
            ([''out''], Dir)]"

definition worldW :: world where
  "worldW = \<lparr>disk = diskW, posts = 0, trace = []\<rparr>"

definition pdfW :: path where "pdfW = [''pdfs'', ''a.pdf'']"
definition outW :: path where "outW = [''out'', ''a'', ''a.tei.xml'']"
definition disk1W :: filesystem where "disk1W = diskW @ [([''out'', ''a''], Dir)]"

definition srv_down :: service where
  "srv_down n = Raises (RequestException (if n = 0 then ''timeout 1'' else if n = 1 then ''timeout 2'' else ''timeout 3''))"

definition srv_empty :: service where
  "srv_empty n = Response 200 ''   ''"

definition srv_flaky :: service where
  "srv_flaky n = (if n = 0 then Raises (RequestException ''timeout'')
                  else Response 200 ''<TEI>a</TEI>'')"

definition srv_bad_then_good :: service where
  "srv_bad_then_good n = (if n = 0 then Response 200 ''not a document''
                          else Response 200 ''<TEI>b</TEI>'')"

definition srv_two :: service where
  "srv_two n = (if n = 0 then Response 200 ''<TEI>first</TEI>''
                else Response 200 ''<TEI>second</TEI>'')"

definition disk2W :: filesystem where
  "disk2W = [([], Dir), ([''pdfs''], Dir), ([''pdfs'', ''a.pdf''], File (Text ''%PDF-1.7'')),
             ([''pdfs'', ''b.pdf''], File (Text ''%PDF-1.4'')), ([''out''], Dir)]"

definition world2W :: world where
  "world2W = \<lparr>disk = disk2W, posts = 0, trace = []\<rparr>"

definition diskH :: filesystem where
  "diskH = [([], Dir), ([''pdfs''], Dir), ([''pdfs'', ''.pdf''], File (Text ''%PDF-1.7'')),
            ([''pdfs'', ''.pdf.pdf''], File (Text ''%PDF-1.4'')), ([''out''], Dir)]"

definition worldH :: world where
  "worldH = \<lparr>disk = diskH, posts = 0, trace = []\<rparr>"

definition diskM :: filesystem where
  "diskM = [([], Dir), ([''pdfs''], Dir), ([''pdfs'', ''a.pdf''], File (Text ''%PDF-1.7'')),
            ([''out''], Dir), ([''out'', ''a''], Dir),
            ([''out'', ''a'', ''meta.json''], File (Text ''kept'')),
            ([''out'', ''a'', ''a.tei.xml''], File (Text ''old''))]"

definition worldM :: world where
  "worldM = \<lparr>disk = diskM, posts = 0, trace = []\<rparr>"

text \<open>An input whose output folder is the path of the error log.\<close>

definition diskL :: filesystem where
  "diskL = [([], Dir), ([''pdfs''], Dir),
            ([''pdfs'', ''grobid_errors_local.json.pdf''], File (Text ''%PDF-1.7'')),
            ([''out''], Dir)]"

definition worldL :: world where
  "worldL = \<lparr>disk = diskL, posts = 0, trace = []\<rparr>"

definition pdfL :: path where "pdfL = [''pdfs'', ''grobid_errors_local.json.pdf'']"

section \<open>The file system operations\<close>

lemma lookup_store: "lookup (store p n fs) q = (if q = p then Some n else lookup fs q)"
  by (simp add: lookup_def store_def update_conv')

lemma file_at_store_Dir: "lookup fs p = None \<Longrightarrow> file_at (store p Dir fs) = file_at fs"
  by (rule ext) (simp add: file_at_def lookup_store)

lemma os_mkdir_Inr: "os_mkdir p fs = Inr fs' \<Longrightarrow> lookup fs p = None \<and> lookup fs (parent p) = Some Dir \<and> fs' = store p Dir fs"
  by (auto simp: os_mkdir_def split: option.splits node.splits)

lemma os_mkdir_ENOENT: "os_mkdir p fs = Inl (OSError ENOENT) \<Longrightarrow> lookup fs p = None \<and> lookup fs (parent p) = None"
  by (auto simp: os_mkdir_def split: option.splits node.splits)

lemma dirs_added_refl: "dirs_added p fs fs"
  by (simp add: dirs_added_def)

lemma dirs_added_trans: "dirs_added p fs fs' \<Longrightarrow> dirs_added p' fs' fs'' \<Longrightarrow> prefix p p' \<Longrightarrow> dirs_added p' fs fs''"
  unfolding dirs_added_def
  apply clarify
  subgoal for q
    apply (erule_tac x=q in allE)+
    by (auto dest: prefix_order.trans)
  done

lemma mkdir_leaf_dirs_added: "mkdir_leaf p fs = (r, fs') \<Longrightarrow> dirs_added p fs fs'"
  by (auto simp: mkdir_leaf_def dirs_added_def lookup_store split: sum.splits if_splits dest!: os_mkdir_Inr)

lemma mkdir_dirs_added: "mkdir p fs = (r, fs') \<Longrightarrow> dirs_added p fs fs'"
proof (induction p fs arbitrary: r fs' rule: mkdir.induct)
  case (1 p fs)
  show ?case
  proof (cases "os_mkdir p fs")
    case (Inr fs1)
    with "1.prems" have "fs' = store p Dir fs" "lookup fs p = None"
      by (auto simp: mkdir.simps[of p fs] dest!: os_mkdir_Inr)
    then show ?thesis by (simp add: dirs_added_def lookup_store)
  next
    case (Inl e)
    show ?thesis
    proof (cases "e = OSError ENOENT \<and> p \<noteq> []")
      case False
      with Inl "1.prems" have "fs' = fs"
        by (auto simp: mkdir.simps[of p fs] split: if_splits)
      then show ?thesis by (simp add: dirs_added_refl)
    next
      case True
      obtain r1 fs1 where m1: "mkdir (parent p) fs = (r1, fs1)" by (cases "mkdir (parent p) fs")
      from "1.IH"[OF Inl _ _ m1] True have d1: "dirs_added (parent p) fs fs1" by simp
      have pp: "prefix (parent p) p" by (simp add: parent_def prefixeq_butlast)
      show ?thesis
      proof (cases r1)
        case (Inl e1)
        with m1 True \<open>os_mkdir p fs = Inl e\<close> "1.prems" have "fs' = fs1"
          by (simp add: mkdir.simps[of p fs])
        with d1 pp show ?thesis using dirs_added_trans[OF d1 dirs_added_refl pp] by simp
      next
        case (Inr u)
        with m1 True \<open>os_mkdir p fs = Inl e\<close> "1.prems" have "mkdir_leaf p fs1 = (r, fs')"
          by (simp add: mkdir.simps[of p fs])
        from dirs_added_trans[OF d1 mkdir_leaf_dirs_added[OF this] pp] show ?thesis .
      qed
    qed
  qed
qed

lemma mkdir_ok_is_dir: "mkdir p fs = (Inr u, fs') \<Longrightarrow> lookup fs' p = Some Dir"
proof (induction p fs arbitrary: u fs' rule: mkdir.induct)
  case (1 p fs)
  show ?case
  proof (cases "os_mkdir p fs")
    case (Inr fs1)
    with "1.prems" show ?thesis
      by (auto simp: mkdir.simps[of p fs] lookup_store dest!: os_mkdir_Inr)
  next
    case (Inl e)
    with "1.prems" show ?thesis
      by (auto simp: mkdir.simps[of p fs] mkdir_leaf_def lookup_store split: if_splits prod.splits sum.splits dest!: os_mkdir_Inr)
  qed
qed

lemma mkdir_existing: "lookup fs p = Some Dir \<Longrightarrow> mkdir p fs = (Inr (), fs)"
  by (simp add: mkdir.simps[of p fs] os_mkdir_def)

lemma mkdir_in_dir: "lookup fs p = None \<Longrightarrow> lookup fs (parent p) = Some Dir \<Longrightarrow> mkdir p fs = (Inr (), store p Dir fs)"
  by (simp add: mkdir.simps[of p fs] os_mkdir_def)

lemma dirs_added_file_at: "dirs_added p fs fs' \<Longrightarrow> file_at fs' = file_at fs"
  apply (rule ext)
  subgoal for q
    unfolding dirs_added_def file_at_def
    apply (erule_tac x=q in allE)
    by auto
  done

lemma write_file_Inr: "write_file p c fs = Inr fs' \<Longrightarrow> fs' = store p (File c) fs \<and> lookup fs p \<noteq> Some Dir"
  by (auto simp: write_file_def split: option.splits node.splits)

lemma write_file_ok: "lookup fs (parent p) = Some Dir \<Longrightarrow> lookup fs p \<noteq> Some Dir \<Longrightarrow> write_file p c fs = Inr (store p (File c) fs)"
  by (auto simp: write_file_def split: option.splits node.splits)


lemma sleep_ok: "sleepable d \<Longrightarrow> sleep d w = (Inr (), emit (Sleep d) w)"
  by (auto simp: sleep_def sleepable_def SLEEP_MIN_def)

lemma sleep_rejects:
  "\<not> sleepable d \<Longrightarrow> \<exists>e. sleep d w = (Inl e, w) \<and> \<not> is_RequestException e"
  by (auto simp: sleep_def sleepable_def)

lemma open_rb_file: "lookup fs p = Some (File f) \<Longrightarrow> open_rb p fs = Inr f"
  by (simp add: open_rb_def)







lemma attempt_once_cases:
  assumes "attempt_once cfg srv pdf out w = (r, w')"
  shows "(w' = w \<and> (\<exists>e. r = Inl e \<and> \<not> is_RequestException e))
       \<or> (w' = posted cfg pdf w \<and> (\<exists>e. r = Inl e))
       \<or> (\<exists>st body. r = Inr () \<and> srv (posts w) = Response st body \<and> tei_text (strip body)
            \<and> lookup (disk w) out \<noteq> Some Dir
            \<and> w' = wrote_tei cfg pdf out (strip body) w)"
  using assms
  by (auto simp: attempt_once_def open_rb_def posted_def wrote_tei_def tei_text_def emit_def Let_def
      split: option.splits node.splits reply.splits if_splits sum.splits dest!: write_file_Inr)

lemma attempts_effect:
  assumes "attempts cfg srv pdf out retries backoff as w = (r, w')"
  shows "\<exists>evs. list_all (call_event cfg pdf) evs \<and> length (filter is_Post evs) \<le> length as
        \<and> posts w' = posts w + length (filter is_Post evs)
        \<and> ((trace w' = trace w @ evs \<and> disk w' = disk w
              \<and> (r = Inr () \<longrightarrow> as = [] \<or> last as < retries))
           \<or> (\<exists>st body. r = Inr () \<and> srv (posts w' - 1) = Response st body \<and> tei_text (strip body)
                \<and> lookup (disk w) out \<noteq> Some Dir
                \<and> trace w' = trace w @ evs @ [Write out]
                \<and> disk w' = store out (File (Text (strip body))) (disk w)
                \<and> evs \<noteq> [] \<and> last evs = Post (api_url cfg) pdf))"
  using assms
proof (induction as arbitrary: w)
  case Nil
  then show ?case by (intro exI[of _ "[]"]) auto
next
  case (Cons a as)
  obtain r1 w1 where a1: "attempt_once cfg srv pdf out w = (r1, w1)"
    by (cases "attempt_once cfg srv pdf out w")
  from attempt_once_cases[OF a1] consider
      (nopen) e where "w1 = w" "r1 = Inl e" "\<not> is_RequestException e"
    | (fail) e where "w1 = posted cfg pdf w" "r1 = Inl e"
    | (ok) st body where "r1 = Inr ()" "srv (posts w) = Response st body" "tei_text (strip body)"
         "lookup (disk w) out \<noteq> Some Dir" "w1 = wrote_tei cfg pdf out (strip body) w"
    by blast
  then show ?case
  proof cases
    case nopen
    with Cons.prems a1 have "r = Inl e" "w' = w" by auto
    then show ?thesis by (intro exI[of _ "[]"]) auto
  next
    case ok
    with Cons.prems a1 have "r = Inr ()" "w' = wrote_tei cfg pdf out (strip body) w" by auto
    with ok show ?thesis
      by (intro exI[of _ "[Post (api_url cfg) pdf]"])
         (auto simp: wrote_tei_def posted_def emit_def call_event_def)
  next
    case fail
    show ?thesis
    proof (cases "is_RequestException e \<and> a < retries \<and> sleepable (backoff * of_int a)")
      case False
      with fail Cons.prems a1 sleep_rejects[of "backoff * of_int a" "posted cfg pdf w"]
      have "w' = posted cfg pdf w" "\<exists>e'. r = Inl e'"
        by (auto split: if_splits)
      then show ?thesis
        by (intro exI[of _ "[Post (api_url cfg) pdf]"])
           (auto simp: posted_def emit_def call_event_def)
    next
      case True
      let ?w2 = "emit (Sleep (backoff * of_int a)) (posted cfg pdf w)"
      from True fail Cons.prems a1
      have rec: "attempts cfg srv pdf out retries backoff as ?w2 = (r, w')"
        by (auto simp: sleep_ok)
      from Cons.IH[OF rec] obtain evs where
        evs: "list_all (call_event cfg pdf) evs" "length (filter is_Post evs) \<le> length as"
          "posts w' = posts ?w2 + length (filter is_Post evs)"
          "(trace w' = trace ?w2 @ evs \<and> disk w' = disk ?w2
              \<and> (r = Inr () \<longrightarrow> as = [] \<or> last as < retries))
           \<or> (\<exists>st body. r = Inr () \<and> srv (posts w' - 1) = Response st body \<and> tei_text (strip body)
                \<and> lookup (disk ?w2) out \<noteq> Some Dir
                \<and> trace w' = trace ?w2 @ evs @ [Write out]
                \<and> disk w' = store out (File (Text (strip body))) (disk ?w2)
                \<and> evs \<noteq> [] \<and> last evs = Post (api_url cfg) pdf)"
        by blast
      let ?evs = "Post (api_url cfg) pdf # Sleep (backoff * of_int a) # evs"
      have 1: "list_all (call_event cfg pdf) ?evs" using evs(1) by (simp add: call_event_def)
      have 2: "length (filter is_Post ?evs) \<le> length (a # as)" using evs(2) by simp
      have 3: "posts w' = posts w + length (filter is_Post ?evs)"
        using evs(3) by (simp add: posted_def emit_def)
      from evs(4) True have 4: "(trace w' = trace w @ ?evs \<and> disk w' = disk w
              \<and> (r = Inr () \<longrightarrow> a # as = [] \<or> last (a # as) < retries))
           \<or> (\<exists>st body. r = Inr () \<and> srv (posts w' - 1) = Response st body \<and> tei_text (strip body)
                \<and> lookup (disk w) out \<noteq> Some Dir
                \<and> trace w' = trace w @ ?evs @ [Write out]
                \<and> disk w' = store out (File (Text (strip body))) (disk w)
                \<and> ?evs \<noteq> [] \<and> last ?evs = Post (api_url cfg) pdf)"
        by (auto simp: posted_def emit_def)
      from 1 2 3 4 show ?thesis by blast
    qed
  qed
qed


lemma grobid_unfold_ok:
  assumes "mkdir (parent out) (disk w) = (Inr (), fs1)"
  shows "grobid_process_fulltext cfg srv pdf out retries backoff w =
         attempts cfg srv pdf out retries backoff [1..retries] (w\<lparr>disk := fs1\<rparr>)"
  using assms by (simp add: grobid_process_fulltext_def)


lemma mkdir_keeps_file:
  assumes "mkdir p fs = (r, fs')" "lookup fs q = Some (File f)"
  shows "lookup fs' q = Some (File f)"
  using mkdir_dirs_added[OF assms(1)] assms(2) unfolding dirs_added_def
  by (metis option.distinct(1))

section \<open>The retry loop\<close>




text \<open>
  Claim C10. With \<open>retries\<close> at most 0 the loop body never runs: when the parent directory
  of the output file can be created, the call returns normally, it has posted nothing and
  written no file, and the parent directory exists afterwards.
\<close>

theorem grobid_zero_retries_no_op:
  assumes "retries \<le> 0"
    and "mkdir (parent output_xml_path) (disk w) = (Inr (), fs1)"
  shows "\<exists>w'. grobid_process_fulltext cfg srv pdf_path output_xml_path retries backoff w = (Inr (), w')
          \<and> posts w' = posts w \<and> trace w' = trace w
          \<and> file_at (disk w') = file_at (disk w)
          \<and> lookup (disk w') (parent output_xml_path) = Some Dir"
proof -
  have "[1..retries] = []" using assms(1) by simp
  then have "grobid_process_fulltext cfg srv pdf_path output_xml_path retries backoff w
             = (Inr (), w\<lparr>disk := fs1\<rparr>)"
    using grobid_unfold_ok[OF assms(2)] by simp
  moreover have "file_at fs1 = file_at (disk w)"
    using dirs_added_file_at[OF mkdir_dirs_added[OF assms(2)]] .
  moreover have "lookup fs1 (parent output_xml_path) = Some Dir"
    using mkdir_ok_is_dir[OF assms(2)] .
  ultimately show ?thesis by simp
qed

text \<open>With \<open>retries = 0\<close> the directory \<^verbatim>\<open>out/a\<close> is created and nothing else happens.\<close>

theorem grobid_zero_retries_no_op_witness:
  "grobid_process_fulltext cfgW srv_down pdfW outW 0 5 worldW = (Inr (), worldW\<lparr>disk := disk1W\<rparr>)
   \<and> file_at disk1W outW = None \<and> lookup disk1W (parent outW) = Some Dir
   \<and> lookup diskW (parent outW) = None"
proof -
  have le: "(0::int) \<le> 0" by simp
  have mk: "mkdir (parent outW) (disk worldW) = (Inr (), disk1W)" by code_simp
  from grobid_zero_retries_no_op[OF le mk, of cfgW srv_down pdfW 5]
  obtain w' where w': "grobid_process_fulltext cfgW srv_down pdfW outW 0 5 worldW = (Inr (), w')"
    "lookup (disk w') (parent outW) = Some Dir" by blast
  have "grobid_process_fulltext cfgW srv_down pdfW outW 0 5 worldW = (Inr (), worldW\<lparr>disk := disk1W\<rparr>)"
    using grobid_unfold_ok[OF mk, of cfgW srv_down pdfW 0 5] by simp
  moreover from this w' have "lookup disk1W (parent outW) = Some Dir" by simp
  moreover have "file_at disk1W outW = None" by code_simp
  moreover have "lookup diskW (parent outW) = None" by code_simp
  ultimately show ?thesis by simp
qed


section \<open>The check of the response text\<close>

lemma file_at_store_File: "file_at (store p (File c) fs) q = (if q = p then Some c else file_at fs q)"
  by (simp add: file_at_def lookup_store)





section \<open>One item, the loop and the run\<close>

lemma changes_refl: "changes rt S fs fs"
  by (simp add: changes_def)

lemma changes_mono: "changes rt S fs fs' \<Longrightarrow> S \<subseteq> T \<Longrightarrow> changes rt T fs fs'"
  unfolding changes_def
  apply (intro allI)
  subgoal for p
    apply (erule_tac x=p in allE)
    by blast
  done

lemma changes_trans:
  assumes "changes rt S fs fs1" "changes rt T fs1 fs2"
  shows "changes rt (S \<union> T) fs fs2"
  unfolding changes_def
proof (intro allI)
  fix p
  from assms(1) have 1: "lookup fs1 p = lookup fs p
        \<or> (lookup fs p = None \<and> lookup fs1 p = Some Dir \<and>
            (\<exists>pdf\<in>S. prefix p (paper_dir rt pdf)))
        \<or> (lookup fs p \<noteq> Some Dir \<and> (\<exists>pdf\<in>S. p = tei_path rt pdf) \<and>
            (\<exists>t. lookup fs1 p = Some (File (Text t)) \<and> tei_text t))
        \<or> (lookup fs p = None \<and>
            (\<exists>pdf\<in>S. p = meta_path rt pdf \<and>
                       lookup fs1 p = Some (File (MetaJson (make_meta pdf)))))"
    unfolding changes_def by blast
  from assms(2) have 2: "lookup fs2 p = lookup fs1 p
        \<or> (lookup fs1 p = None \<and> lookup fs2 p = Some Dir \<and>
            (\<exists>pdf\<in>T. prefix p (paper_dir rt pdf)))
        \<or> (lookup fs1 p \<noteq> Some Dir \<and> (\<exists>pdf\<in>T. p = tei_path rt pdf) \<and>
            (\<exists>t. lookup fs2 p = Some (File (Text t)) \<and> tei_text t))
        \<or> (lookup fs1 p = None \<and>
            (\<exists>pdf\<in>T. p = meta_path rt pdf \<and>
                       lookup fs2 p = Some (File (MetaJson (make_meta pdf)))))"
    unfolding changes_def by blast
  from 2 consider (same) "lookup fs2 p = lookup fs1 p"
    | (dir) "lookup fs1 p = None" "lookup fs2 p = Some Dir" "\<exists>pdf\<in>T. prefix p (paper_dir rt pdf)"
    | (tei) "lookup fs1 p \<noteq> Some Dir" "\<exists>pdf\<in>T. p = tei_path rt pdf"
            "\<exists>t. lookup fs2 p = Some (File (Text t)) \<and> tei_text t"
    | (meta) "lookup fs1 p = None" "\<exists>pdf\<in>T. p = meta_path rt pdf \<and>
                       lookup fs2 p = Some (File (MetaJson (make_meta pdf)))"
    by (elim disjE conjE) auto
  then show "lookup fs2 p = lookup fs p
        \<or> (lookup fs p = None \<and> lookup fs2 p = Some Dir \<and>
            (\<exists>pdf\<in>S \<union> T. prefix p (paper_dir rt pdf)))
        \<or> (lookup fs p \<noteq> Some Dir \<and> (\<exists>pdf\<in>S \<union> T. p = tei_path rt pdf) \<and>
            (\<exists>t. lookup fs2 p = Some (File (Text t)) \<and> tei_text t))
        \<or> (lookup fs p = None \<and>
            (\<exists>pdf\<in>S \<union> T. p = meta_path rt pdf \<and>
                       lookup fs2 p = Some (File (MetaJson (make_meta pdf)))))"
  proof cases
    case same
    with 1 show ?thesis by auto
  next
    case dir
    with 1 have "lookup fs p = None" by auto
    with dir show ?thesis by auto
  next
    case tei
    with 1 have "lookup fs p \<noteq> Some Dir" by auto
    with tei show ?thesis by auto
  next
    case meta
    with 1 have "lookup fs p = None" by auto
    with meta show ?thesis by auto
  qed
qed

lemma tei_path_eq: "tei_path rt pdf = paper_dir rt pdf @ [folder_name pdf @ ''.tei.xml'']"
  by (simp add: tei_path_def joinpath_def)

lemma meta_path_eq: "meta_path rt pdf = paper_dir rt pdf @ [''meta.json'']"
  by (simp add: meta_path_def joinpath_def)

lemma error_log_path_eq: "error_log_path rt = rt @ [''grobid_errors_local.json'']"
  by (simp add: error_log_path_def joinpath_def)

lemma parent_tei_path: "parent (tei_path rt pdf) = paper_dir rt pdf"
  by (simp add: tei_path_eq parent_def)

lemma parent_meta_path: "parent (meta_path rt pdf) = paper_dir rt pdf"
  by (simp add: meta_path_eq parent_def)

lemma parent_error_log_path: "parent (error_log_path rt) = rt"
  by (simp add: error_log_path_eq parent_def)

lemma tei_neq_meta: "tei_path rt pdf \<noteq> meta_path rt' pdf'"
  by (simp add: tei_path_eq meta_path_eq)

lemma tei_neq_log: "tei_path rt pdf \<noteq> error_log_path rt'"
  by (simp add: tei_path_eq error_log_path_eq)

lemma meta_neq_log: "meta_path rt pdf \<noteq> error_log_path rt'"
  by (simp add: meta_path_eq error_log_path_eq)

lemma not_prefix_tei: "\<not> prefix (tei_path rt pdf) (paper_dir rt pdf)"
  by (simp add: tei_path_eq)

lemma not_prefix_meta: "\<not> prefix (meta_path rt pdf) (paper_dir rt pdf)"
  by (simp add: meta_path_eq)


lemma grobid_effect:
  assumes "grobid_process_fulltext cfg srv pdf out retries backoff w = (r, w')"
  shows "\<exists>rm fs1 evs. mkdir (parent out) (disk w) = (rm, fs1)
        \<and> list_all (call_event cfg pdf) evs \<and> length (filter is_Post evs) \<le> nat retries
        \<and> posts w' = posts w + length (filter is_Post evs)
        \<and> ((trace w' = trace w @ evs \<and> disk w' = fs1 \<and> (r = Inr () \<longrightarrow> retries \<le> 0))
           \<or> (\<exists>st body. rm = Inr () \<and> r = Inr () \<and> srv (posts w' - 1) = Response st body
                \<and> tei_text (strip body)
                \<and> lookup fs1 out \<noteq> Some Dir
                \<and> trace w' = trace w @ evs @ [Write out]
                \<and> disk w' = store out (File (Text (strip body))) fs1
                \<and> evs \<noteq> [] \<and> last evs = Post (api_url cfg) pdf))"
proof (cases "mkdir (parent out) (disk w)")
  case (Pair rm fs1)
  show ?thesis
  proof (cases rm)
    case (Inl e)
    with Pair assms have "r = Inl e" "w' = w\<lparr>disk := fs1\<rparr>"
      by (auto simp: grobid_process_fulltext_def)
    with Pair show ?thesis by (intro exI[of _ rm] exI[of _ fs1] exI[of _ "[]"]) simp
  next
    case (Inr u)
    with Pair assms have a: "attempts cfg srv pdf out retries backoff [1..retries] (w\<lparr>disk := fs1\<rparr>) = (r, w')"
      by (simp add: grobid_process_fulltext_def)
    have l: "[1..retries] = [] \<or> last [1..retries] < retries \<Longrightarrow> retries \<le> 0"
      by (cases "1 \<le> retries") (auto simp: upto_rec2)
    from attempts_effect[OF a] obtain evs where
      evs: "list_all (call_event cfg pdf) evs" "length (filter is_Post evs) \<le> length [1..retries]"
        "posts w' = posts (w\<lparr>disk := fs1\<rparr>) + length (filter is_Post evs)"
        "(trace w' = trace (w\<lparr>disk := fs1\<rparr>) @ evs \<and> disk w' = disk (w\<lparr>disk := fs1\<rparr>)
              \<and> (r = Inr () \<longrightarrow> [1..retries] = [] \<or> last [1..retries] < retries))
           \<or> (\<exists>st body. r = Inr () \<and> srv (posts w' - 1) = Response st body \<and> tei_text (strip body)
                \<and> lookup (disk (w\<lparr>disk := fs1\<rparr>)) out \<noteq> Some Dir
                \<and> trace w' = trace (w\<lparr>disk := fs1\<rparr>) @ evs @ [Write out]
                \<and> disk w' = store out (File (Text (strip body))) (disk (w\<lparr>disk := fs1\<rparr>))
                \<and> evs \<noteq> [] \<and> last evs = Post (api_url cfg) pdf)"
      by blast
    from evs(4) l Inr have 4: "(trace w' = trace w @ evs \<and> disk w' = fs1 \<and> (r = Inr () \<longrightarrow> retries \<le> 0))
           \<or> (\<exists>st body. rm = Inr () \<and> r = Inr () \<and> srv (posts w' - 1) = Response st body
                \<and> tei_text (strip body)
                \<and> lookup fs1 out \<noteq> Some Dir
                \<and> trace w' = trace w @ evs @ [Write out]
                \<and> disk w' = store out (File (Text (strip body))) fs1
                \<and> evs \<noteq> [] \<and> last evs = Post (api_url cfg) pdf)"
      by auto
    from evs(1,2,3) 4 Pair show ?thesis
      by (intro exI[of _ rm] exI[of _ fs1] exI[of _ evs]) simp
  qed
qed

lemma try_item_fail:
  assumes "grobid_process_fulltext cfg srv pdf (tei_path rt pdf) 3 5 w = (Inl e, w1)"
  shows "try_item cfg srv rt pdf w = (Inl e, w1)"
  using assms by (simp add: try_item_def)

lemma meta_step:
  assumes "lookup (disk w2) (paper_dir rt pdf) = Some Dir"
  shows "(if \<not> exists (meta_path rt pdf) (disk w2) then
         (case mkdir (paper_dir rt pdf) (disk w2) of
            (Inl e, fs3) \<Rightarrow> (Inl e, w2\<lparr>disk := fs3\<rparr>)
          | (Inr u, fs3) \<Rightarrow>
              (case write_file (meta_path rt pdf) (MetaJson (make_meta pdf)) fs3 of
                 Inl e \<Rightarrow> (Inl e, w2\<lparr>disk := fs3\<rparr>)
               | Inr fs4 \<Rightarrow> (Inr (), emit (Write (meta_path rt pdf)) (w2\<lparr>disk := fs4\<rparr>))))
       else (Inr (), w2)) =
     (Inr (), if exists (meta_path rt pdf) (disk w2) then w2
       else emit (Write (meta_path rt pdf))
              (w2\<lparr>disk := store (meta_path rt pdf) (File (MetaJson (make_meta pdf))) (disk w2)\<rparr>))"
proof (cases "exists (meta_path rt pdf) (disk w2)")
  case True
  then show ?thesis by simp
next
  case False
  then have none: "lookup (disk w2) (meta_path rt pdf) = None" by (simp add: exists_def)
  have m: "mkdir (paper_dir rt pdf) (disk w2) = (Inr (), disk w2)"
    by (rule mkdir_existing[OF assms])
  have wr: "write_file (meta_path rt pdf) (MetaJson (make_meta pdf)) (disk w2)
        = Inr (store (meta_path rt pdf) (File (MetaJson (make_meta pdf))) (disk w2))"
    by (rule write_file_ok) (use assms none in \<open>simp_all add: parent_meta_path\<close>)
  from False show ?thesis by (simp add: m wr)
qed

lemma try_item_throttle_rejected:
  assumes g: "grobid_process_fulltext cfg srv pdf (tei_path rt pdf) 3 5 w = (Inr (), w1)"
    and big: "SLEEP_MAX < GROBID_SLEEP cfg"
  shows "try_item cfg srv rt pdf w =
         (Inl (OverflowError ''timestamp out of range for platform time_t''), w1)"
proof -
  have "0 < GROBID_SLEEP cfg" using big by (simp add: SLEEP_MAX_def)
  with big show ?thesis by (simp add: try_item_def g sleep_def)
qed

lemma try_item_ok:
  assumes g: "grobid_process_fulltext cfg srv pdf (tei_path rt pdf) 3 5 w = (Inr (), w1)"
    and small: "GROBID_SLEEP cfg \<le> SLEEP_MAX"
  shows "try_item cfg srv rt pdf w = (Inr (), finish cfg rt pdf w1)"
proof -
  from grobid_effect[OF g] obtain fs1 t where
    mk: "mkdir (parent (tei_path rt pdf)) (disk w) = (Inr (), fs1)"
    and d1: "disk w1 = store (tei_path rt pdf) (File (Text t)) fs1"
    by auto
  have dir1: "lookup (disk w1) (paper_dir rt pdf) = Some Dir"
  proof -
    have "lookup fs1 (paper_dir rt pdf) = Some Dir"
      using mkdir_ok_is_dir[OF mk] by (simp add: parent_tei_path)
    moreover have "paper_dir rt pdf \<noteq> tei_path rt pdf" by (simp add: tei_path_eq)
    ultimately show ?thesis using d1 by (simp add: lookup_store)
  qed
  show ?thesis
  proof (cases "0 < GROBID_SLEEP cfg")
    case True
    have dir2: "lookup (disk (emit (Sleep (GROBID_SLEEP cfg)) w1)) (paper_dir rt pdf) = Some Dir"
      using dir1 by (simp add: emit_def)
    have "sleepable (GROBID_SLEEP cfg)" using True small by (simp add: sleepable_def)
    with True show ?thesis
      unfolding try_item_def finish_def Let_def
      by (simp add: g sleep_ok meta_step[OF dir2])
  next
    case False
    then show ?thesis
      unfolding try_item_def finish_def Let_def
      by (simp add: g meta_step[OF dir1])
  qed
qed

lemma try_item_after_ok:
  assumes g: "grobid_process_fulltext cfg srv pdf (tei_path rt pdf) 3 5 w = (Inr (), w1)"
    and t: "try_item cfg srv rt pdf w = (r, w')"
  shows "(r = Inr () \<and> w' = finish cfg rt pdf w1 \<and> GROBID_SLEEP cfg \<le> SLEEP_MAX)
       \<or> ((\<exists>e. r = Inl e) \<and> w' = w1 \<and> SLEEP_MAX < GROBID_SLEEP cfg)"
proof (cases "GROBID_SLEEP cfg \<le> SLEEP_MAX")
  case True
  from try_item_ok[OF g True] t True show ?thesis by simp
next
  case False
  then have "SLEEP_MAX < GROBID_SLEEP cfg" by simp
  from try_item_throttle_rejected[OF g this] t this show ?thesis by simp
qed

lemma changes_dirs: "dirs_added (paper_dir rt pdf) fs fs' \<Longrightarrow> changes rt {pdf} fs fs'"
  unfolding dirs_added_def changes_def
  apply (intro allI)
  subgoal for p
    apply (erule_tac x=p in allE)
    by auto
  done

lemma changes_tei:
  "lookup fs (tei_path rt pdf) \<noteq> Some Dir \<Longrightarrow> tei_text t \<Longrightarrow>
   changes rt {pdf} fs (store (tei_path rt pdf) (File (Text t)) fs)"
  unfolding changes_def by (auto simp: lookup_store)

lemma changes_meta:
  "lookup fs (meta_path rt pdf) = None \<Longrightarrow>
   changes rt {pdf} fs (store (meta_path rt pdf) (File (MetaJson (make_meta pdf))) fs)"
  unfolding changes_def by (auto simp: lookup_store)

lemma changes_trans1:
  "changes rt {pdf} fs fs1 \<Longrightarrow> changes rt {pdf} fs1 fs2 \<Longrightarrow> changes rt {pdf} fs fs2"
  using changes_trans[of rt "{pdf}" fs fs1 "{pdf}" fs2] by simp

lemma finish_disk:
  "disk (finish cfg rt pdf w1) =
     (if exists (meta_path rt pdf) (disk w1) then disk w1
      else store (meta_path rt pdf) (File (MetaJson (make_meta pdf))) (disk w1))"
  by (simp add: finish_def emit_def Let_def)

lemma finish_posts: "posts (finish cfg rt pdf w1) = posts w1"
  by (simp add: finish_def emit_def Let_def)

lemma finish_trace:
  "trace (finish cfg rt pdf w1) =
     trace w1 @ (if GROBID_SLEEP cfg > 0 then [Sleep (GROBID_SLEEP cfg)] else [])
       @ (if exists (meta_path rt pdf) (disk w1) then [] else [Write (meta_path rt pdf)])"
  by (simp add: finish_def emit_def Let_def)

lemma grobid_changes:
  assumes "grobid_process_fulltext cfg srv pdf (tei_path rt pdf) retries backoff w = (r, w')"
  shows "changes rt {pdf} (disk w) (disk w')"
proof -
  from grobid_effect[OF assms] obtain rm fs1 where
    mk: "mkdir (parent (tei_path rt pdf)) (disk w) = (rm, fs1)"
    and d: "disk w' = fs1 \<or> (\<exists>t. tei_text t \<and> lookup fs1 (tei_path rt pdf) \<noteq> Some Dir \<and>
              disk w' = store (tei_path rt pdf) (File (Text t)) fs1)"
    by blast
  have c1: "changes rt {pdf} (disk w) fs1"
    using mkdir_dirs_added[OF mk] by (simp add: parent_tei_path changes_dirs)
  from d show ?thesis
  proof
    assume "disk w' = fs1" with c1 show ?thesis by simp
  next
    assume "\<exists>t. tei_text t \<and> lookup fs1 (tei_path rt pdf) \<noteq> Some Dir \<and>
              disk w' = store (tei_path rt pdf) (File (Text t)) fs1"
    then obtain t where t: "tei_text t" "lookup fs1 (tei_path rt pdf) \<noteq> Some Dir"
      "disk w' = store (tei_path rt pdf) (File (Text t)) fs1" by blast
    from changes_trans1[OF c1 changes_tei[OF t(2) t(1)]] t(3) show ?thesis by simp
  qed
qed

lemma try_item_changes:
  assumes "try_item cfg srv rt pdf w = (r, w')"
  shows "changes rt {pdf} (disk w) (disk w')"
proof (cases "grobid_process_fulltext cfg srv pdf (tei_path rt pdf) 3 5 w")
  case (Pair r1 w1)
  note c1 = grobid_changes[OF Pair]
  show ?thesis
  proof (cases r1)
    case (Inl e)
    with Pair try_item_fail[of cfg srv pdf rt w e w1] assms have "w' = w1" by simp
    with c1 show ?thesis by simp
  next
    case (Inr u)
    with Pair have g: "grobid_process_fulltext cfg srv pdf (tei_path rt pdf) 3 5 w = (Inr (), w1)"
      by simp
    from try_item_after_ok[OF g assms] have "w' = finish cfg rt pdf w1 \<or> w' = w1" by blast
    then show ?thesis
    proof
      assume "w' = w1" with c1 show ?thesis by simp
    next
      assume w': "w' = finish cfg rt pdf w1"
      show ?thesis
      proof (cases "exists (meta_path rt pdf) (disk w1)")
        case True
        with w' c1 show ?thesis by (simp add: finish_disk)
      next
        case False
        then have "lookup (disk w1) (meta_path rt pdf) = None" by (simp add: exists_def)
        from changes_trans1[OF c1 changes_meta[OF this]] False w' show ?thesis
          by (simp add: finish_disk)
      qed
    qed
  qed
qed

lemma try_item_trace:
  assumes "try_item cfg srv rt pdf w = (r, w')"
  shows "\<exists>calls tail. trace w' = trace w @ calls @ tail
        \<and> list_all (call_event cfg pdf) calls \<and> list_all (persist_event rt pdf) tail
        \<and> length (filter is_Post calls) \<le> 3
        \<and> posts w' = posts w + length (filter is_Post calls)
        \<and> (r \<noteq> Inr () \<longrightarrow> tail = [] \<or> tail = [Write (tei_path rt pdf)])
        \<and> (tail \<noteq> [] \<longrightarrow> calls \<noteq> [] \<and> last calls = Post (api_url cfg) pdf \<and>
              hd tail = Write (tei_path rt pdf))
        \<and> (r = Inr () \<longrightarrow> calls \<noteq> [] \<and> last calls = Post (api_url cfg) pdf \<and>
              tail = [Write (tei_path rt pdf)]
                @ (if GROBID_SLEEP cfg > 0 then [Sleep (GROBID_SLEEP cfg)] else [])
                @ (if Write (meta_path rt pdf) \<in> set tail then [Write (meta_path rt pdf)] else []))"
proof (cases "grobid_process_fulltext cfg srv pdf (tei_path rt pdf) 3 5 w")
  case (Pair r1 w1)
  from grobid_effect[OF Pair] obtain evs where
    evs: "list_all (call_event cfg pdf) evs" "length (filter is_Post evs) \<le> 3"
      "posts w1 = posts w + length (filter is_Post evs)"
      "(trace w1 = trace w @ evs \<and> r1 \<noteq> Inr ())
       \<or> (r1 = Inr () \<and> trace w1 = trace w @ evs @ [Write (tei_path rt pdf)]
            \<and> evs \<noteq> [] \<and> last evs = Post (api_url cfg) pdf)"
    by auto
  show ?thesis
  proof (cases r1)
    case (Inl e)
    with Pair try_item_fail[of cfg srv pdf rt w e w1] assms have "w' = w1" "r = Inl e" by simp_all
    show ?thesis
      apply (rule exI[of _ evs], rule exI[of _ "[]"])
      using evs Inl \<open>w' = w1\<close> \<open>r = Inl e\<close> by auto
  next
    case (Inr u)
    with Pair have g: "grobid_process_fulltext cfg srv pdf (tei_path rt pdf) 3 5 w = (Inr (), w1)"
      by simp
    from evs(4) Inr have tr: "trace w1 = trace w @ evs @ [Write (tei_path rt pdf)]"
      "evs \<noteq> []" "last evs = Post (api_url cfg) pdf" by auto
    from try_item_after_ok[OF g assms] consider
      (ok) "r = Inr ()" "w' = finish cfg rt pdf w1"
      | (rejected) "r \<noteq> Inr ()" "w' = w1"
      by auto
    then show ?thesis
    proof cases
      case rejected
      show ?thesis
        apply (rule exI[of _ evs], rule exI[of _ "[Write (tei_path rt pdf)]"])
        using evs tr rejected by (simp add: persist_event_def)
    next
      case ok
      note w' = ok(2) ok(1)
    let ?tail = "[Write (tei_path rt pdf)]
                @ (if GROBID_SLEEP cfg > 0 then [Sleep (GROBID_SLEEP cfg)] else [])
                @ (if exists (meta_path rt pdf) (disk w1) then [] else [Write (meta_path rt pdf)])"
    have neq: "Write (meta_path rt pdf) \<noteq> Write (tei_path rt pdf)"
      using tei_neq_meta[of rt pdf rt pdf] by auto
    have 1: "trace w' = trace w @ evs @ ?tail" using w' tr by (simp add: finish_trace)
    have 2: "list_all (persist_event rt pdf) ?tail" by (simp add: persist_event_def)
    have 3: "?tail = [Write (tei_path rt pdf)]
                @ (if GROBID_SLEEP cfg > 0 then [Sleep (GROBID_SLEEP cfg)] else [])
                @ (if Write (meta_path rt pdf) \<in> set ?tail then [Write (meta_path rt pdf)] else [])"
      using neq by auto
    show ?thesis
      apply (rule exI[of _ evs], rule exI[of _ ?tail])
      using 1 2 3 evs w' tr finish_posts[of cfg rt pdf w1] by simp
    qed
  qed
qed

lemma try_item_success:
  assumes "try_item cfg srv rt pdf w = (Inr (), w')"
  shows "lookup (disk w') (paper_dir rt pdf) = Some Dir
       \<and> (\<exists>st body. srv (posts w' - 1) = Response st body \<and> tei_text (strip body)
             \<and> lookup (disk w') (tei_path rt pdf) = Some (File (Text (strip body))))
       \<and> exists (meta_path rt pdf) (disk w')
       \<and> (lookup (disk w) (meta_path rt pdf) = None \<longrightarrow>
            lookup (disk w') (meta_path rt pdf) = Some (File (MetaJson (make_meta pdf))))
       \<and> posts w < posts w'"
proof (cases "grobid_process_fulltext cfg srv pdf (tei_path rt pdf) 3 5 w")
  case (Pair r1 w1)
  have r1: "r1 = Inr ()"
  proof (cases r1)
    case (Inl e)
    with Pair try_item_fail[of cfg srv pdf rt w e w1] assms show ?thesis by simp
  qed simp
  with Pair have g: "grobid_process_fulltext cfg srv pdf (tei_path rt pdf) 3 5 w = (Inr (), w1)"
    by simp
  from try_item_after_ok[OF g assms] have w': "w' = finish cfg rt pdf w1" by auto
  from grobid_effect[OF Pair] r1 obtain fs1 evs st body where
    mk: "mkdir (parent (tei_path rt pdf)) (disk w) = (Inr (), fs1)"
    and srv: "srv (posts w1 - 1) = Response st body" "tei_text (strip body)"
    and d1: "disk w1 = store (tei_path rt pdf) (File (Text (strip body))) fs1"
    and p1: "posts w1 = posts w + length (filter is_Post evs)" "evs \<noteq> []" "last evs = Post (api_url cfg) pdf"
    by auto
  have dir: "lookup fs1 (paper_dir rt pdf) = Some Dir"
    using mkdir_ok_is_dir[OF mk] by (simp add: parent_tei_path)
  have ne: "paper_dir rt pdf \<noteq> tei_path rt pdf" "paper_dir rt pdf \<noteq> meta_path rt pdf"
    by (simp_all add: tei_path_eq meta_path_eq)
  have A: "lookup (disk w') (paper_dir rt pdf) = Some Dir"
    using dir ne d1 w' by (simp add: finish_disk lookup_store)
  have B: "lookup (disk w') (tei_path rt pdf) = Some (File (Text (strip body)))"
    using d1 w' tei_neq_meta[of rt pdf rt pdf] by (simp add: finish_disk lookup_store)
  have C: "exists (meta_path rt pdf) (disk w')"
    using w' by (simp add: finish_disk exists_def lookup_store)
  have m1: "lookup fs1 (meta_path rt pdf) = lookup (disk w) (meta_path rt pdf)"
    using mkdir_dirs_added[OF mk] not_prefix_meta[of rt pdf]
    unfolding dirs_added_def parent_tei_path by metis
  have D: "lookup (disk w) (meta_path rt pdf) = None \<longrightarrow>
            lookup (disk w') (meta_path rt pdf) = Some (File (MetaJson (make_meta pdf)))"
    using m1 d1 w' tei_neq_meta[of rt pdf rt pdf]
    by (auto simp: finish_disk exists_def lookup_store)
  have "filter is_Post evs \<noteq> []"
  proof -
    have "last evs \<in> set evs" using p1(2) by simp
    moreover have "is_Post (last evs)" using p1(3) by simp
    ultimately show ?thesis unfolding filter_empty_conv by blast
  qed
  then have E: "posts w < posts w'" using p1(1) w' by (simp add: finish_posts)
  from srv have "srv (posts w' - 1) = Response st body" using w' by (simp add: finish_posts)
  with A B C D E srv(2) show ?thesis by blast
qed


lemma parse_loop_append:
  "parse_loop cfg srv rt (xs @ ys) acc = parse_loop cfg srv rt ys (parse_loop cfg srv rt xs acc)"
proof (induction xs arbitrary: acc)
  case Nil
  show ?case by simp
next
  case (Cons x xs)
  obtain idx pdf where x: "x = (idx, pdf)" by (cases x)
  obtain w errs where acc: "acc = (w, errs)" by (cases acc)
  show ?case unfolding x acc
    by (cases "try_item cfg srv rt pdf w") (auto simp: Cons.IH split: sum.splits)
qed

lemma parse_loop_step:
  "parse_loop cfg srv rt ((idx, pdf) # rest) (w, errs) =
     parse_loop cfg srv rt rest
       (snd (try_item cfg srv rt pdf w),
        (case fst (try_item cfg srv rt pdf w) of
           Inl e \<Rightarrow> errs @ [(idx, folder_name pdf, e)] | Inr u \<Rightarrow> errs))"
  by (cases "try_item cfg srv rt pdf w") (auto split: sum.splits)

lemma item_segment_split:
  assumes "list_all (call_event cfg pdf) calls" "list_all (persist_event rt pdf) tail"
    "tail \<noteq> [] \<longrightarrow> calls \<noteq> [] \<and> last calls = Post (api_url cfg) pdf \<and> hd tail = Write (tei_path rt pdf)"
  shows "item_segment cfg rt pdf (calls @ tail)"
proof -
  have nc: "\<not> call_event cfg pdf (Write p)" for p by (simp add: call_event_def)
  have all: "\<And>x. x \<in> set calls \<Longrightarrow> call_event cfg pdf x" using assms(1) by (simp add: list_all_iff)
  have t: "takeWhile (call_event cfg pdf) tail = []" "dropWhile (call_event cfg pdf) tail = tail"
    using assms(3) nc by (cases tail; auto)+
  have "takeWhile (call_event cfg pdf) (calls @ tail) = calls"
    "dropWhile (call_event cfg pdf) (calls @ tail) = tail"
    using all t by simp_all
  then show ?thesis using assms(2,3) by (simp add: item_segment_def)
qed

lemma attempt_once_opened:
  assumes "open_rb pdf (disk w) = Inr f" "attempt_once cfg srv pdf out w = (r, w1)"
  shows "\<exists>rest. trace w1 = trace w @ Post (api_url cfg) pdf # rest"
  using assms
  by (auto simp: attempt_once_def Let_def emit_def split: reply.splits if_splits sum.splits)

lemma attempts_first_post:
  assumes o: "open_rb pdf (disk w) = Inr f"
    and a: "attempts cfg srv pdf out retries backoff (a # as) w = (r, w')"
  shows "\<exists>rest. trace w' = trace w @ Post (api_url cfg) pdf # rest"
proof -
  obtain r1 w1 where a1: "attempt_once cfg srv pdf out w = (r1, w1)"
    by (cases "attempt_once cfg srv pdf out w")
  from attempt_once_opened[OF o a1] obtain rest1 where
    t1: "trace w1 = trace w @ Post (api_url cfg) pdf # rest1" by blast
  show ?thesis
  proof (cases "\<exists>e. r1 = Inl e \<and> is_RequestException e \<and> a < retries \<and> sleepable (backoff * of_int a)")
    case False
    have "w' = w1"
    proof (cases r1)
      case (Inr u)
      with a a1 show ?thesis by simp
    next
      case (Inl e)
      with False a a1 sleep_rejects[of "backoff * of_int a" w1]
      show ?thesis by (auto split: if_splits)
    qed
    with t1 show ?thesis by blast
  next
    case True
    then obtain e where e: "r1 = Inl e" "is_RequestException e" "a < retries"
      "sleepable (backoff * of_int a)" by blast
    with a a1 have rec: "attempts cfg srv pdf out retries backoff as
        (emit (Sleep (backoff * of_int a)) w1) = (r, w')"
      by (simp add: sleep_ok)
    from attempts_effect[OF rec] obtain evs2 where
      "trace w' = trace (emit (Sleep (backoff * of_int a)) w1) @ evs2"
      by (metis append.assoc)
    with t1 show ?thesis by (simp add: emit_def)
  qed
qed

lemma try_item_extends:
  assumes t: "try_item cfg srv rt pdf w = (r, w')"
    and g: "grobid_process_fulltext cfg srv pdf (tei_path rt pdf) 3 5 w = (r1, w1)"
  shows "\<exists>more. trace w' = trace w1 @ more"
proof (cases r1)
  case (Inl e)
  with g try_item_fail[of cfg srv pdf rt w e w1] t show ?thesis by simp
next
  case (Inr u)
  with g have g': "grobid_process_fulltext cfg srv pdf (tei_path rt pdf) 3 5 w = (Inr (), w1)"
    by simp
  from try_item_after_ok[OF g' t] show ?thesis by (auto simp: finish_trace)
qed

lemma try_item_first_post:
  assumes t: "try_item cfg srv rt pdf w = (r, w')"
    and isfile: "lookup (disk w) pdf = Some (File f)"
    and mk: "mkdir (paper_dir rt pdf) (disk w) = (Inr (), fs1)"
  shows "\<exists>rest. trace w' = trace w @ Post (api_url cfg) pdf # rest"
proof -
  obtain r1 w1 where g: "grobid_process_fulltext cfg srv pdf (tei_path rt pdf) 3 5 w = (r1, w1)"
    by (cases "grobid_process_fulltext cfg srv pdf (tei_path rt pdf) 3 5 w")
  have mk': "mkdir (parent (tei_path rt pdf)) (disk w) = (Inr (), fs1)"
    using mk by (simp add: parent_tei_path)
  have up: "[1..(3::int)] = 1 # [2..3]" by (simp add: upto_rec1)
  from g have a: "attempts cfg srv pdf (tei_path rt pdf) 3 5 (1 # [2..3]) (w\<lparr>disk := fs1\<rparr>) = (r1, w1)"
    unfolding grobid_unfold_ok[OF mk'] up .
  have o: "open_rb pdf (disk (w\<lparr>disk := fs1\<rparr>)) = Inr f"
    using mkdir_keeps_file[OF mk isfile] by (simp add: open_rb_file)
  from attempts_first_post[OF o a] obtain rest where
    "trace w1 = trace w @ Post (api_url cfg) pdf # rest" by auto
  with try_item_extends[OF t g] show ?thesis by auto
qed

lemma try_item_success_trace:
  assumes t: "try_item cfg srv rt pdf w = (Inr (), w')"
  shows "\<exists>calls. list_all (call_event cfg pdf) calls \<and> calls \<noteq> [] \<and>
           last calls = Post (api_url cfg) pdf \<and>
           trace w' = trace w @ calls @ success_events cfg rt pdf (disk w)"
proof (cases "grobid_process_fulltext cfg srv pdf (tei_path rt pdf) 3 5 w")
  case (Pair r1 w1)
  have r1: "r1 = Inr ()"
  proof (cases r1)
    case (Inl e)
    with Pair try_item_fail[of cfg srv pdf rt w e w1] t show ?thesis by simp
  qed simp
  with Pair have g: "grobid_process_fulltext cfg srv pdf (tei_path rt pdf) 3 5 w = (Inr (), w1)"
    by simp
  from try_item_after_ok[OF g t] have w': "w' = finish cfg rt pdf w1" by auto
  from grobid_effect[OF Pair] r1 obtain fs1 evs st body where
    mk: "mkdir (parent (tei_path rt pdf)) (disk w) = (Inr (), fs1)"
    and d1: "disk w1 = store (tei_path rt pdf) (File (Text (strip body))) fs1"
    and evs: "list_all (call_event cfg pdf) evs" "evs \<noteq> []" "last evs = Post (api_url cfg) pdf"
      "trace w1 = trace w @ evs @ [Write (tei_path rt pdf)]"
    by auto
  have m1: "lookup fs1 (meta_path rt pdf) = lookup (disk w) (meta_path rt pdf)"
    using mkdir_dirs_added[OF mk] not_prefix_meta[of rt pdf]
    unfolding dirs_added_def parent_tei_path by metis
  have ex: "exists (meta_path rt pdf) (disk w1) = exists (meta_path rt pdf) (disk w)"
    using m1 d1 tei_neq_meta[of rt pdf rt pdf] by (auto simp: exists_def lookup_store)
  have "trace w' = trace w @ evs @ success_events cfg rt pdf (disk w)"
    using w' evs(4) ex by (simp add: finish_trace success_events_def)
  with evs(1,2,3) show ?thesis by blast
qed

lemma try_item_events:
  assumes t: "try_item cfg srv rt pdf w = (r, w')"
  shows "\<exists>seg. trace w' = trace w @ seg \<and> item_segment cfg rt pdf seg"
proof -
  from try_item_trace[OF t] obtain calls tail where
    ct: "trace w' = trace w @ calls @ tail" "list_all (call_event cfg pdf) calls"
      "list_all (persist_event rt pdf) tail"
      "tail \<noteq> [] \<longrightarrow> calls \<noteq> [] \<and> last calls = Post (api_url cfg) pdf \<and>
              hd tail = Write (tei_path rt pdf)"
    by blast
  from item_segment_split[OF ct(2,3,4)] ct(1) show ?thesis by blast
qed


lemma parse_loop_snoc:
  assumes "i < length pdfs"
  shows "parse_loop cfg srv rt (enumerate n (take (Suc i) pdfs)) acc =
         parse_loop cfg srv rt [(n + i, pdfs ! i)]
           (parse_loop cfg srv rt (enumerate n (take i pdfs)) acc)"
proof -
  have "take (Suc i) pdfs = take i pdfs @ [pdfs ! i]"
    using assms by (rule take_Suc_conv_app_nth)
  then show ?thesis using assms by (simp add: enumerate_append_eq parse_loop_append min_def)
qed

lemma item_loop_step:
  assumes "i < length pdfs"
  shows "parse_loop cfg srv rt (enumerate 1 (take (Suc i) pdfs)) (w0, []) =
     (snd (item_run cfg srv rt pdfs w0 i),
      snd (parse_loop cfg srv rt (enumerate 1 (take i pdfs)) (w0, [])) @
        (case fst (item_run cfg srv rt pdfs w0 i) of
           Inl e \<Rightarrow> [(Suc i, folder_name (pdfs ! i), e)] | Inr u \<Rightarrow> []))"
proof -
  obtain wi errs where acc: "parse_loop cfg srv rt (enumerate 1 (take i pdfs)) (w0, []) = (wi, errs)"
    by (cases "parse_loop cfg srv rt (enumerate 1 (take i pdfs)) (w0, [])")
  then have wi: "item_start cfg srv rt pdfs w0 i = wi" by (simp add: item_start_def)
  show ?thesis
    unfolding parse_loop_snoc[OF assms] acc parse_loop_step item_run_def wi
    by (cases "fst (try_item cfg srv rt (pdfs ! i) wi)") simp_all
qed

lemma item_start_Suc:
  assumes "i < length pdfs"
  shows "item_start cfg srv rt pdfs w0 (Suc i) = snd (item_run cfg srv rt pdfs w0 i)"
  unfolding item_start_def[of _ _ _ _ _ "Suc i"] item_loop_step[OF assms] by simp

lemma item_errors_length:
  "i \<le> length pdfs \<Longrightarrow>
   length (snd (parse_loop cfg srv rt (enumerate 1 (take i pdfs)) (w0, []))) =
   length (filter (\<lambda>j. fst (item_run cfg srv rt pdfs w0 j) \<noteq> Inr ()) [0..<i])"
proof (induction i)
  case 0
  show ?case by simp
next
  case (Suc i)
  then have lt: "i < length pdfs" by simp
  show ?case
    unfolding item_loop_step[OF lt]
    using Suc.IH lt by (cases "fst (item_run cfg srv rt pdfs w0 i)") simp_all
qed

lemma item_start_trace:
  "i \<le> length pdfs \<Longrightarrow>
   trace (item_start cfg srv rt pdfs w0 i) =
   trace w0 @ concat (map (\<lambda>j. drop (length (trace (item_start cfg srv rt pdfs w0 j)))
                                  (trace (snd (item_run cfg srv rt pdfs w0 j)))) [0..<i])"
proof (induction i)
  case 0
  show ?case by (simp add: item_start_def)
next
  case (Suc i)
  then have lt: "i < length pdfs" by simp
  have run: "item_run cfg srv rt pdfs w0 i =
     (fst (item_run cfg srv rt pdfs w0 i), snd (item_run cfg srv rt pdfs w0 i))" by simp
  from try_item_events[OF run[unfolded item_run_def[of _ _ _ _ _ i]], folded item_run_def]
  obtain seg where
    "trace (snd (item_run cfg srv rt pdfs w0 i)) = trace (item_start cfg srv rt pdfs w0 i) @ seg"
    by blast
  then show ?case using Suc.IH lt by (simp add: item_start_Suc[OF lt])
qed


lemma item_run_events:
  fixes cfg srv rt pdfs w0 i
  defines "wi \<equiv> item_start cfg srv rt pdfs w0 i"
    and "seg \<equiv> drop (length (trace (item_start cfg srv rt pdfs w0 i)))
                   (trace (snd (item_run cfg srv rt pdfs w0 i)))"
  shows "trace (snd (item_run cfg srv rt pdfs w0 i)) = trace wi @ seg"
    and "item_segment cfg rt (pdfs ! i) seg"
    and "fst (item_run cfg srv rt pdfs w0 i) = Inr () \<Longrightarrow>
           \<exists>calls. list_all (call_event cfg (pdfs ! i)) calls \<and> calls \<noteq> [] \<and>
             last calls = Post (api_url cfg) (pdfs ! i) \<and>
             seg = calls @ success_events cfg rt (pdfs ! i) (disk wi)"
    and "lookup (disk wi) (pdfs ! i) = Some (File f) \<Longrightarrow>
         fst (mkdir (paper_dir rt (pdfs ! i)) (disk wi)) = Inr () \<Longrightarrow>
           seg \<noteq> [] \<and> hd seg = Post (api_url cfg) (pdfs ! i)"
proof -
  let ?r = "fst (item_run cfg srv rt pdfs w0 i)"
  let ?w = "snd (item_run cfg srv rt pdfs w0 i)"
  have run: "try_item cfg srv rt (pdfs ! i) wi = (?r, ?w)"
    by (simp add: item_run_def wi_def)
  from try_item_events[OF run] obtain sg where
    sg: "trace ?w = trace wi @ sg" "item_segment cfg rt (pdfs ! i) sg" by blast
  then have eq: "seg = sg" by (simp add: seg_def wi_def)
  from sg eq show "trace ?w = trace wi @ seg" "item_segment cfg rt (pdfs ! i) seg" by simp_all
  {
    assume "?r = Inr ()"
    with run have "try_item cfg srv rt (pdfs ! i) wi = (Inr (), ?w)" by simp
    from try_item_success_trace[OF this] sg(1) eq
    show "\<exists>calls. list_all (call_event cfg (pdfs ! i)) calls \<and> calls \<noteq> [] \<and>
             last calls = Post (api_url cfg) (pdfs ! i) \<and>
             seg = calls @ success_events cfg rt (pdfs ! i) (disk wi)"
      by auto
  }
  {
    assume isfile: "lookup (disk wi) (pdfs ! i) = Some (File f)"
      and "fst (mkdir (paper_dir rt (pdfs ! i)) (disk wi)) = Inr ()"
    then have mk: "mkdir (paper_dir rt (pdfs ! i)) (disk wi) =
        (Inr (), snd (mkdir (paper_dir rt (pdfs ! i)) (disk wi)))"
      by (metis prod.collapse)
    from try_item_first_post[OF run isfile mk] sg(1) eq
    show "seg \<noteq> [] \<and> hd seg = Post (api_url cfg) (pdfs ! i)" by auto
  }
qed

lemma parse_loop_changes:
  assumes "parse_loop cfg srv rt items (w, errs) = (w', errs')"
  shows "changes rt (snd ` set items) (disk w) (disk w')"
  using assms
proof (induction items arbitrary: w errs)
  case Nil
  then show ?case by (simp add: changes_refl)
next
  case (Cons x items)
  obtain idx pdf where x: "x = (idx, pdf)" by (cases x)
  obtain r w1 where t: "try_item cfg srv rt pdf w = (r, w1)" by (cases "try_item cfg srv rt pdf w")
  from Cons.prems have "parse_loop cfg srv rt items
       (w1, (case r of Inl e \<Rightarrow> errs @ [(idx, folder_name pdf, e)] | Inr u \<Rightarrow> errs)) = (w', errs')"
    unfolding x parse_loop_step t by simp
  from changes_trans[OF try_item_changes[OF t] Cons.IH[OF this]] show ?case
    by (simp add: x)
qed

lemma parse_loop_errors_grow:
  assumes "parse_loop cfg srv rt items (w, errs) = (w', errs')"
  shows "\<exists>new. errs' = errs @ new"
  using assms
proof (induction items arbitrary: w errs)
  case Nil
  then show ?case by simp
next
  case (Cons x items)
  obtain idx pdf where x: "x = (idx, pdf)" by (cases x)
  obtain r w1 where t: "try_item cfg srv rt pdf w = (r, w1)" by (cases "try_item cfg srv rt pdf w")
  from Cons.prems have "parse_loop cfg srv rt items
       (w1, (case r of Inl e \<Rightarrow> errs @ [(idx, folder_name pdf, e)] | Inr u \<Rightarrow> errs)) = (w', errs')"
    unfolding x parse_loop_step t by simp
  from Cons.IH[OF this] show ?case by (cases r) auto
qed


lemma parse_pdfs_directory_failed_mkdir:
  assumes "mkdir rt (disk w) = (Inl e, fs0)"
  shows "parse_pdfs_directory cfg srv input_dir rt w = (Inl e, w\<lparr>disk := fs0\<rparr>)"
  using assms by (simp add: parse_pdfs_directory_def)

lemma parse_pdfs_directory_empty:
  assumes "mkdir rt (disk w) = (Inr (), fs0)" "sort (glob_pdf input_dir fs0) = []"
  shows "parse_pdfs_directory cfg srv input_dir rt w =
         (Inr (), w\<lparr>disk := fs0, trace := trace w @ [Glob input_dir, Print (MsgNoPdfs input_dir)]\<rparr>)"
  using assms by (simp add: parse_pdfs_directory_def emit_def Let_def)

lemma parse_pdfs_directory_run:
  assumes "mkdir rt (disk w) = (Inr (), fs0)" "sort (glob_pdf input_dir fs0) \<noteq> []"
    and "parse_loop cfg srv rt (enumerate 1 (sort (glob_pdf input_dir fs0)))
           (start_world cfg input_dir rt fs0 w, []) = (w2, errs)"
  shows "parse_pdfs_directory cfg srv input_dir rt w =
         report rt (length (sort (glob_pdf input_dir fs0))) errs w2"
  using assms by (simp add: parse_pdfs_directory_def emit_def Let_def start_world_def)

lemma report_effect:
  assumes "report rt n errs w = (r, w')"
  shows "posts w' = posts w \<and>
     ((trace w' = trace w @ [Print (MsgDone n), Print (MsgParseErrors (length errs))]
        \<and> disk w' = disk w \<and> (r = Inr () \<longrightarrow> errs = []))
      \<or> (errs \<noteq> [] \<and> r = Inr () \<and> lookup (disk w) (error_log_path rt) \<noteq> Some Dir
          \<and> trace w' = trace w @ [Print (MsgDone n), Print (MsgParseErrors (length errs)),
                Write (error_log_path rt), Print (MsgErrorDetails (error_log_path rt))]
          \<and> disk w' = store (error_log_path rt) (File (ErrorsJson errs)) (disk w)))"
  using assms
  by (auto simp: report_def Let_def emit_def split: if_splits sum.splits dest!: write_file_Inr)

lemma report_ok:
  assumes "errs \<noteq> []" "lookup (disk w) (error_log_path rt) \<noteq> Some Dir" "lookup (disk w) rt = Some Dir"
  shows "report rt n errs w =
     (Inr (), w\<lparr>disk := store (error_log_path rt) (File (ErrorsJson errs)) (disk w),
               trace := trace w @ [Print (MsgDone n), Print (MsgParseErrors (length errs)),
                Write (error_log_path rt), Print (MsgErrorDetails (error_log_path rt))]\<rparr>)"
proof -
  have "write_file (error_log_path rt) (ErrorsJson errs) (disk w)
        = Inr (store (error_log_path rt) (File (ErrorsJson errs)) (disk w))"
    by (rule write_file_ok) (use assms in \<open>simp_all add: parent_error_log_path\<close>)
  with assms(1) show ?thesis by (simp add: report_def Let_def emit_def)
qed

lemma changes_keeps_dir:
  "changes rt S fs fs' \<Longrightarrow> lookup fs p = Some Dir \<Longrightarrow> lookup fs' p = Some Dir"
  unfolding changes_def by (erule_tac x=p in allE) auto

lemma changes_keeps_exists:
  "changes rt S fs fs' \<Longrightarrow> lookup fs p \<noteq> None \<Longrightarrow> lookup fs' p \<noteq> None"
  unfolding changes_def by (erule_tac x=p in allE) auto

lemma changes_keeps_tei:
  "changes rt S fs fs' \<Longrightarrow> lookup fs p = Some (File (Text t)) \<Longrightarrow> tei_text t \<Longrightarrow>
   \<exists>t'. lookup fs' p = Some (File (Text t')) \<and> tei_text t'"
  unfolding changes_def by (erule_tac x=p in allE) auto

lemma changes_keeps_meta:
  "changes rt S fs fs' \<Longrightarrow> file_at fs (meta_path rt' pdf) = Some c \<Longrightarrow>
   file_at fs' (meta_path rt' pdf) = Some c"
  unfolding changes_def
  apply (erule_tac x="meta_path rt' pdf" in allE)
  using tei_neq_meta[of rt _ rt' pdf]
  by (auto simp: file_at_def split: option.splits node.splits) metis+

lemma changes_files:
  "changes rt S fs fs' \<Longrightarrow> file_at fs' p \<noteq> file_at fs p \<Longrightarrow>
   (\<exists>pdf\<in>S. p = tei_path rt pdf \<and> (\<exists>t. file_at fs' p = Some (Text t) \<and> tei_text t))
   \<or> (\<exists>pdf\<in>S. p = meta_path rt pdf \<and> lookup fs p = None \<and> file_at fs' p = Some (MetaJson (make_meta pdf)))"
  unfolding changes_def
  apply (erule_tac x=p in allE)
  by (auto simp: file_at_def split: option.splits node.splits)

lemma changes_new_dir:
  "changes rt S fs fs' \<Longrightarrow> lookup fs' p = Some Dir \<Longrightarrow> lookup fs p \<noteq> Some Dir \<Longrightarrow>
   lookup fs p = None \<and> (\<exists>pdf\<in>S. prefix p (paper_dir rt pdf))"
  unfolding changes_def by (erule_tac x=p in allE) auto

lemma map_snd_enumerate: "map snd (enumerate n xs) = xs"
  by (simp add: enumerate_eq_zip)


lemma write_file_Inl: "write_file p c fs = Inl e \<Longrightarrow> \<not> is_RequestException e"
  by (auto simp: write_file_def split: option.splits node.splits)

lemma attempt_once_req:
  assumes "attempt_once cfg srv pdf out w = (Inl e, w')" "is_RequestException e"
  shows "net_error (srv (posts w)) = Some e \<and> w' = posted cfg pdf w"
  using assms
  by (auto simp: attempt_once_def open_rb_def net_error_def posted_def Let_def
      split: option.splits node.splits reply.splits if_splits sum.splits dest: write_file_Inl)

lemma attempts_retry_after_net:
  assumes "attempts cfg srv pdf out retries backoff as w = (r, w')"
  shows "\<forall>i. posts w + i + 1 < posts w' \<longrightarrow> net_error (srv (posts w + i)) \<noteq> None"
  using assms
proof (induction as arbitrary: w)
  case Nil
  then show ?case by simp
next
  case (Cons a as)
  obtain r1 w1 where a1: "attempt_once cfg srv pdf out w = (r1, w1)"
    by (cases "attempt_once cfg srv pdf out w")
  show ?case
  proof (cases "\<exists>e. r1 = Inl e \<and> is_RequestException e \<and> a < retries \<and> sleepable (backoff * of_int a)")
    case True
    then obtain e where e: "r1 = Inl e" "is_RequestException e" "a < retries" "sleepable (backoff * of_int a)"
      by blast
    from attempt_once_req[OF a1[unfolded e(1)] e(2)]
    have n: "net_error (srv (posts w)) = Some e" and w1: "w1 = posted cfg pdf w" by simp_all
    let ?w2 = "emit (Sleep (backoff * of_int a)) (posted cfg pdf w)"
    from Cons.prems a1 e w1 have rec: "attempts cfg srv pdf out retries backoff as ?w2 = (r, w')"
      by (simp add: sleep_ok)
    have p2: "posts ?w2 = posts w + 1" by (simp add: emit_def posted_def)
    show ?thesis
    proof (intro allI impI)
      fix i assume i: "posts w + i + 1 < posts w'"
      show "net_error (srv (posts w + i)) \<noteq> None"
      proof (cases i)
        case 0
        with n show ?thesis by simp
      next
        case (Suc j)
        with i p2 have "posts ?w2 + j + 1 < posts w'" by simp
        with Cons.IH[OF rec] have "net_error (srv (posts ?w2 + j)) \<noteq> None" by blast
        with p2 Suc show ?thesis by simp
      qed
    qed
  next
    case False
    from attempts_effect[of cfg srv pdf out retries backoff "[a]" w]
    have "posts w' \<le> posts w + 1"
    proof -
      from attempt_once_cases[OF a1] False Cons.prems a1
        sleep_rejects[of "backoff * of_int a" w1]
      have "w' = w1 \<and> posts w1 \<le> posts w + 1"
        by (auto simp: posted_def emit_def wrote_tei_def split: if_splits)
      then show ?thesis by simp
    qed
    then show ?thesis by simp
  qed
qed

lemma grobid_retry_after_net:
  assumes "grobid_process_fulltext cfg srv pdf out retries backoff w = (r, w')"
  shows "\<forall>i. posts w + i + 1 < posts w' \<longrightarrow> net_error (srv (posts w + i)) \<noteq> None"
proof (cases "mkdir (parent out) (disk w)")
  case (Pair rm fs1)
  show ?thesis
  proof (cases rm)
    case (Inl e)
    with Pair assms show ?thesis by (auto simp: grobid_process_fulltext_def)
  next
    case (Inr u)
    with Pair assms have "attempts cfg srv pdf out retries backoff [1..retries] (w\<lparr>disk := fs1\<rparr>) = (r, w')"
      by (simp add: grobid_process_fulltext_def)
    from attempts_retry_after_net[OF this] show ?thesis by simp
  qed
qed

lemma try_item_retry_after_net:
  assumes "try_item cfg srv rt pdf w = (r, w')"
  shows "\<forall>i. posts w + i + 1 < posts w' \<longrightarrow> net_error (srv (posts w + i)) \<noteq> None"
proof (cases "grobid_process_fulltext cfg srv pdf (tei_path rt pdf) 3 5 w")
  case (Pair r1 w1)
  have "posts w' = posts w1"
  proof (cases r1)
    case (Inl e)
    with Pair try_item_fail[of cfg srv pdf rt w e w1] assms show ?thesis by simp
  next
    case (Inr u)
    with Pair have g: "grobid_process_fulltext cfg srv pdf (tei_path rt pdf) 3 5 w = (Inr (), w1)"
      by simp
    from try_item_after_ok[OF g assms] show ?thesis by (auto simp: finish_posts)
  qed
  with grobid_retry_after_net[OF Pair] show ?thesis by simp
qed

text \<open>
  Claim C3, as amended. The loop body runs \<open>try_item\<close> once for every PDF. For one item it
  makes at most three HTTP POSTs (the default \<open>retries\<close>), all of them for this PDF and one
  after the other; a request is followed by another one only when it failed with a network
  error.
\<close>

theorem item_posts_at_most_three:
  assumes "try_item cfg srv output_root pdf_path w = (r, w')"
  shows "\<exists>seg. trace w' = trace w @ seg
       \<and> length (filter is_Post seg) \<le> 3
       \<and> posts w' = posts w + length (filter is_Post seg)
       \<and> (\<forall>e\<in>set seg. is_Post e \<longrightarrow> e = Post (api_url cfg) pdf_path)
       \<and> (\<forall>i. i + 1 < length (filter is_Post seg) \<longrightarrow> net_error (srv (posts w + i)) \<noteq> None)"
proof -
  from try_item_trace[OF assms] obtain calls tail where
    ct: "trace w' = trace w @ calls @ tail" "list_all (call_event cfg pdf_path) calls"
      "list_all (persist_event output_root pdf_path) tail" "length (filter is_Post calls) \<le> 3"
      "posts w' = posts w + length (filter is_Post calls)"
    by blast
  have np: "persist_event output_root pdf_path e \<Longrightarrow> \<not> is_Post e" for e
    by (cases e) (auto simp: persist_event_def)
  have cp: "call_event cfg pdf_path e \<Longrightarrow> is_Post e \<Longrightarrow> e = Post (api_url cfg) pdf_path" for e
    by (cases e) (auto simp: call_event_def)
  have ft: "filter is_Post tail = []"
    using ct(3) np by (auto simp: filter_empty_conv list_all_iff)
  have 1: "\<forall>e\<in>set (calls @ tail). is_Post e \<longrightarrow> e = Post (api_url cfg) pdf_path"
    using ct(2,3) np cp by (auto simp: list_all_iff)
  have 2: "\<forall>i. i + 1 < length (filter is_Post (calls @ tail)) \<longrightarrow> net_error (srv (posts w + i)) \<noteq> None"
    using try_item_retry_after_net[OF assms] ct(5) ft by simp
  show ?thesis
    by (rule exI[of _ "calls @ tail"]) (use ct ft 1 2 in simp)
qed


text \<open>
  One PDF, a timeout on the first request and a document on the second: two requests for
  the one item, against the claim that an item gets at most one.
\<close>

theorem one_call_per_item_counterexample:
  "sort (glob_pdf [''pdfs''] (snd (mkdir [''out''] (disk worldW)))) = [pdfW] \<and>
   length (filter is_Post (trace (snd (parse_pdfs_directory cfgW srv_flaky [''pdfs''] [''out''] worldW)))) = 2"
  by code_simp

text \<open>The same item: the bound of three holds, with two requests made.\<close>

theorem item_posts_at_most_three_witness:
  "(\<exists>seg. trace (snd (try_item cfgW srv_flaky [''out''] pdfW worldW)) = trace worldW @ seg
       \<and> length (filter is_Post seg) \<le> 3
       \<and> posts (snd (try_item cfgW srv_flaky [''out''] pdfW worldW)) = posts worldW + length (filter is_Post seg)
       \<and> (\<forall>e\<in>set seg. is_Post e \<longrightarrow> e = Post (api_url cfgW) pdfW)
       \<and> (\<forall>i. i + 1 < length (filter is_Post seg) \<longrightarrow> net_error (srv_flaky (posts worldW + i)) \<noteq> None))
   \<and> posts (snd (try_item cfgW srv_flaky [''out''] pdfW worldW)) = 2"
proof -
  have "try_item cfgW srv_flaky [''out''] pdfW worldW =
        (fst (try_item cfgW srv_flaky [''out''] pdfW worldW), snd (try_item cfgW srv_flaky [''out''] pdfW worldW))"
    by simp
  from item_posts_at_most_three[OF this]
  have "\<exists>seg. trace (snd (try_item cfgW srv_flaky [''out''] pdfW worldW)) = trace worldW @ seg
       \<and> length (filter is_Post seg) \<le> 3
       \<and> posts (snd (try_item cfgW srv_flaky [''out''] pdfW worldW)) = posts worldW + length (filter is_Post seg)
       \<and> (\<forall>e\<in>set seg. is_Post e \<longrightarrow> e = Post (api_url cfgW) pdfW)
       \<and> (\<forall>i. i + 1 < length (filter is_Post seg) \<longrightarrow> net_error (srv_flaky (posts worldW + i)) \<noteq> None)" .
  moreover have "posts (snd (try_item cfgW srv_flaky [''out''] pdfW worldW)) = 2" by code_simp
  ultimately show ?thesis by blast
qed

text \<open>
  Claim C5. A run that cannot create the output root raises before anything else happens.
  Otherwise the events of the run are, in this order: the enumeration of the input
  directory; when there are PDFs, the four lines of the banner; one segment of events for
  each PDF, in the order of the sorted enumeration; the two totals; and then, at most, the
  write of the error log and the line that names it.

  The segment at index \<open>i\<close> is what the \<^verbatim>\<open>try\<close> block of the \<open>i\<close>-th PDF adds to the trace, run
  in the world that the items before it have left, and the next item starts in the world
  that it leaves. In a segment the requests for the PDF (and the sleeps between them) come
  first and the writes after them; the first write is that of the TEI file and the event
  before it is a request. The segment of an item that succeeds is: requests and sleeps that
  end with a request, the write of the TEI file, the throttle when there is one, and the
  write of \<^verbatim>\<open>meta.json\<close> when there was none. When the PDF is a regular file and the folder of
  the item can be created, the segment starts with a request for the PDF.

  The number of errors printed after the loop is the number of the items that have failed.
  Without failures nothing follows the totals; with failures the error log is written and
  named, or the run ends with the error of its \<^verbatim>\<open>open\<close>.
\<close>

theorem pipeline_order:
  assumes "parse_pdfs_directory cfg srv input_dir output_root w = (r, w')"
  shows "(\<forall>e fs0. mkdir output_root (disk w) = (Inl e, fs0) \<longrightarrow> r = Inl e \<and> trace w' = trace w)
    \<and> (\<forall>fs0. mkdir output_root (disk w) = (Inr (), fs0) \<longrightarrow>
         (sort (glob_pdf input_dir fs0) = [] \<longrightarrow>
            trace w' = trace w @ [Glob input_dir, Print (MsgNoPdfs input_dir)]) \<and>
         (sort (glob_pdf input_dir fs0) \<noteq> [] \<longrightarrow>
            (let pdf_paths = sort (glob_pdf input_dir fs0);
                 w0 = start_world cfg input_dir output_root fs0 w
             in \<exists>segs k tail.
               trace w' = trace w @ Glob input_dir # banner cfg input_dir output_root
                  @ concat segs
                  @ [Print (MsgDone (length pdf_paths)), Print (MsgParseErrors k)]
                  @ tail
               \<and> length segs = length pdf_paths
               \<and> item_start cfg srv output_root pdf_paths w0 0 = w0
               \<and> (\<forall>i<length pdf_paths.
                    item_start cfg srv output_root pdf_paths w0 (Suc i)
                      = snd (item_run cfg srv output_root pdf_paths w0 i)
                  \<and> trace (snd (item_run cfg srv output_root pdf_paths w0 i))
                      = trace (item_start cfg srv output_root pdf_paths w0 i) @ segs ! i
                  \<and> item_segment cfg output_root (pdf_paths ! i) (segs ! i)
                  \<and> (fst (item_run cfg srv output_root pdf_paths w0 i) = Inr () \<longrightarrow>
                       (\<exists>calls. list_all (call_event cfg (pdf_paths ! i)) calls \<and> calls \<noteq> [] \<and>
                          last calls = Post (api_url cfg) (pdf_paths ! i) \<and>
                          segs ! i = calls @ success_events cfg output_root (pdf_paths ! i)
                                      (disk (item_start cfg srv output_root pdf_paths w0 i))))
                  \<and> ((\<exists>f. lookup (disk (item_start cfg srv output_root pdf_paths w0 i))
                              (pdf_paths ! i) = Some (File f)) \<and>
                      fst (mkdir (paper_dir output_root (pdf_paths ! i))
                             (disk (item_start cfg srv output_root pdf_paths w0 i))) = Inr () \<longrightarrow>
                       segs ! i \<noteq> [] \<and> hd (segs ! i) = Post (api_url cfg) (pdf_paths ! i)))
               \<and> k = length (filter (\<lambda>i. fst (item_run cfg srv output_root pdf_paths w0 i) \<noteq> Inr ())
                                [0..<length pdf_paths])
               \<and> (k = 0 \<longrightarrow> tail = [])
               \<and> (0 < k \<longrightarrow>
                    (r = Inr () \<and> tail = [Write (error_log_path output_root),
                                          Print (MsgErrorDetails (error_log_path output_root))])
                    \<or> ((\<exists>e. r = Inl e) \<and> tail = [])))))"
proof (intro conjI allI impI)
  fix e fs0 assume "mkdir output_root (disk w) = (Inl e, fs0)"
  from parse_pdfs_directory_failed_mkdir[OF this, of cfg srv input_dir] assms
  show "r = Inl e" "trace w' = trace w" by simp_all
next
  fix fs0 assume mk: "mkdir output_root (disk w) = (Inr (), fs0)"
    and em: "sort (glob_pdf input_dir fs0) = []"
  from parse_pdfs_directory_empty[OF mk em, of cfg srv] assms
  show "trace w' = trace w @ [Glob input_dir, Print (MsgNoPdfs input_dir)]" by auto
next
  fix fs0 assume mk: "mkdir output_root (disk w) = (Inr (), fs0)"
    and ne: "sort (glob_pdf input_dir fs0) \<noteq> []"
  define pdfs where "pdfs = sort (glob_pdf input_dir fs0)"
  define w0 where "w0 = start_world cfg input_dir output_root fs0 w"
  define seg where "seg = (\<lambda>j. drop (length (trace (item_start cfg srv output_root pdfs w0 j)))
                                  (trace (snd (item_run cfg srv output_root pdfs w0 j))))"
  define segs where "segs = map seg [0..<length pdfs]"
  define errs where "errs = snd (parse_loop cfg srv output_root (enumerate 1 pdfs) (w0, []))"
  define k where "k = length (filter (\<lambda>i. fst (item_run cfg srv output_root pdfs w0 i) \<noteq> Inr ())
                                [0..<length pdfs])"
  let ?w2 = "item_start cfg srv output_root pdfs w0 (length pdfs)"
  have loop: "parse_loop cfg srv output_root (enumerate 1 (sort (glob_pdf input_dir fs0)))
           (start_world cfg input_dir output_root fs0 w, []) = (?w2, errs)"
    by (simp add: item_start_def errs_def pdfs_def w0_def)
  from parse_pdfs_directory_run[OF mk ne loop] assms
  have rep: "report output_root (length pdfs) errs ?w2 = (r, w')" by (simp add: pdfs_def)
  have kl: "length errs = k"
    using item_errors_length[of "length pdfs" pdfs cfg srv output_root w0]
    by (simp add: errs_def k_def)
  have tr2: "trace ?w2 = trace w @ Glob input_dir # banner cfg input_dir output_root @ concat segs"
    using item_start_trace[of "length pdfs" pdfs cfg srv output_root w0]
    by (simp add: segs_def seg_def w0_def start_world_def)
  have nth: "segs ! i = seg i" if "i < length pdfs" for i
    using that by (simp add: segs_def)
  from report_effect[OF rep] consider
      (plain) "trace w' = trace ?w2 @ [Print (MsgDone (length pdfs)), Print (MsgParseErrors (length errs))]"
        "r = Inr () \<longrightarrow> errs = []"
    | (logged) "errs \<noteq> []" "r = Inr ()"
        "trace w' = trace ?w2 @ [Print (MsgDone (length pdfs)), Print (MsgParseErrors (length errs)),
                Write (error_log_path output_root), Print (MsgErrorDetails (error_log_path output_root))]"
    by blast
  then obtain tail where
    tail: "trace w' = trace ?w2 @ [Print (MsgDone (length pdfs)), Print (MsgParseErrors k)] @ tail"
      "k = 0 \<longrightarrow> tail = []"
      "0 < k \<longrightarrow>
         (r = Inr () \<and> tail = [Write (error_log_path output_root),
                               Print (MsgErrorDetails (error_log_path output_root))])
         \<or> ((\<exists>e. r = Inl e) \<and> tail = [])"
  proof cases
    case plain
    have "0 < k \<longrightarrow> (\<exists>e. r = Inl e)"
      using plain(2) kl by (cases r) auto
    with plain(1) kl that[of "[]"] show ?thesis by simp
  next
    case logged
    from logged(1) kl have "0 < k" by auto
    with logged kl that[of "[Write (error_log_path output_root),
        Print (MsgErrorDetails (error_log_path output_root))]"] show ?thesis by simp
  qed
  have items: "item_start cfg srv output_root pdfs w0 (Suc i)
                      = snd (item_run cfg srv output_root pdfs w0 i)
                  \<and> trace (snd (item_run cfg srv output_root pdfs w0 i))
                      = trace (item_start cfg srv output_root pdfs w0 i) @ segs ! i
                  \<and> item_segment cfg output_root (pdfs ! i) (segs ! i)
                  \<and> (fst (item_run cfg srv output_root pdfs w0 i) = Inr () \<longrightarrow>
                       (\<exists>calls. list_all (call_event cfg (pdfs ! i)) calls \<and> calls \<noteq> [] \<and>
                          last calls = Post (api_url cfg) (pdfs ! i) \<and>
                          segs ! i = calls @ success_events cfg output_root (pdfs ! i)
                                      (disk (item_start cfg srv output_root pdfs w0 i))))
                  \<and> ((\<exists>f. lookup (disk (item_start cfg srv output_root pdfs w0 i))
                              (pdfs ! i) = Some (File f)) \<and>
                      fst (mkdir (paper_dir output_root (pdfs ! i))
                             (disk (item_start cfg srv output_root pdfs w0 i))) = Inr () \<longrightarrow>
                       segs ! i \<noteq> [] \<and> hd (segs ! i) = Post (api_url cfg) (pdfs ! i))"
    if lt: "i < length pdfs" for i
    unfolding nth[OF lt] seg_def
    using item_start_Suc[OF lt, where cfg=cfg and srv=srv and rt=output_root and ?w0.0=w0]
      item_run_events(1,2)[where cfg=cfg and srv=srv and rt=output_root and pdfs=pdfs and ?w0.0=w0 and i=i]
      item_run_events(3)[where cfg=cfg and srv=srv and rt=output_root and pdfs=pdfs and ?w0.0=w0 and i=i]
      item_run_events(4)[where cfg=cfg and srv=srv and rt=output_root and pdfs=pdfs and ?w0.0=w0 and i=i]
    by blast
  have start: "item_start cfg srv output_root pdfs w0 0 = w0" by (simp add: item_start_def)
  have "\<exists>segs k tail.
               trace w' = trace w @ Glob input_dir # banner cfg input_dir output_root
                  @ concat segs
                  @ [Print (MsgDone (length pdfs)), Print (MsgParseErrors k)]
                  @ tail
               \<and> length segs = length pdfs
               \<and> item_start cfg srv output_root pdfs w0 0 = w0
               \<and> (\<forall>i<length pdfs.
                    item_start cfg srv output_root pdfs w0 (Suc i)
                      = snd (item_run cfg srv output_root pdfs w0 i)
                  \<and> trace (snd (item_run cfg srv output_root pdfs w0 i))
                      = trace (item_start cfg srv output_root pdfs w0 i) @ segs ! i
                  \<and> item_segment cfg output_root (pdfs ! i) (segs ! i)
                  \<and> (fst (item_run cfg srv output_root pdfs w0 i) = Inr () \<longrightarrow>
                       (\<exists>calls. list_all (call_event cfg (pdfs ! i)) calls \<and> calls \<noteq> [] \<and>
                          last calls = Post (api_url cfg) (pdfs ! i) \<and>
                          segs ! i = calls @ success_events cfg output_root (pdfs ! i)
                                      (disk (item_start cfg srv output_root pdfs w0 i))))
                  \<and> ((\<exists>f. lookup (disk (item_start cfg srv output_root pdfs w0 i))
                              (pdfs ! i) = Some (File f)) \<and>
                      fst (mkdir (paper_dir output_root (pdfs ! i))
                             (disk (item_start cfg srv output_root pdfs w0 i))) = Inr () \<longrightarrow>
                       segs ! i \<noteq> [] \<and> hd (segs ! i) = Post (api_url cfg) (pdfs ! i)))
               \<and> k = length (filter (\<lambda>i. fst (item_run cfg srv output_root pdfs w0 i) \<noteq> Inr ())
                                [0..<length pdfs])
               \<and> (k = 0 \<longrightarrow> tail = [])
               \<and> (0 < k \<longrightarrow>
                    (r = Inr () \<and> tail = [Write (error_log_path output_root),
                                          Print (MsgErrorDetails (error_log_path output_root))])
                    \<or> ((\<exists>e. r = Inl e) \<and> tail = []))"
    apply (rule exI[of _ segs], rule exI[of _ k], rule exI[of _ tail])
    apply (intro conjI)
    subgoal using tail(1) tr2 by simp
    subgoal by (simp add: segs_def)
    subgoal by (rule start)
    subgoal using items by blast
    subgoal by (simp add: k_def)
    subgoal by (rule tail(2))
    subgoal by (rule tail(3))
    done
  then show "let pdf_paths = sort (glob_pdf input_dir fs0);
                 w0 = start_world cfg input_dir output_root fs0 w
             in \<exists>segs k tail.
               trace w' = trace w @ Glob input_dir # banner cfg input_dir output_root
                  @ concat segs
                  @ [Print (MsgDone (length pdf_paths)), Print (MsgParseErrors k)]
                  @ tail
               \<and> length segs = length pdf_paths
               \<and> item_start cfg srv output_root pdf_paths w0 0 = w0
               \<and> (\<forall>i<length pdf_paths.
                    item_start cfg srv output_root pdf_paths w0 (Suc i)
                      = snd (item_run cfg srv output_root pdf_paths w0 i)
                  \<and> trace (snd (item_run cfg srv output_root pdf_paths w0 i))
                      = trace (item_start cfg srv output_root pdf_paths w0 i) @ segs ! i
                  \<and> item_segment cfg output_root (pdf_paths ! i) (segs ! i)
                  \<and> (fst (item_run cfg srv output_root pdf_paths w0 i) = Inr () \<longrightarrow>
                       (\<exists>calls. list_all (call_event cfg (pdf_paths ! i)) calls \<and> calls \<noteq> [] \<and>
                          last calls = Post (api_url cfg) (pdf_paths ! i) \<and>
                          segs ! i = calls @ success_events cfg output_root (pdf_paths ! i)
                                      (disk (item_start cfg srv output_root pdf_paths w0 i))))
                  \<and> ((\<exists>f. lookup (disk (item_start cfg srv output_root pdf_paths w0 i))
                              (pdf_paths ! i) = Some (File f)) \<and>
                      fst (mkdir (paper_dir output_root (pdf_paths ! i))
                             (disk (item_start cfg srv output_root pdf_paths w0 i))) = Inr () \<longrightarrow>
                       segs ! i \<noteq> [] \<and> hd (segs ! i) = Post (api_url cfg) (pdf_paths ! i)))
               \<and> k = length (filter (\<lambda>i. fst (item_run cfg srv output_root pdf_paths w0 i) \<noteq> Inr ())
                                [0..<length pdf_paths])
               \<and> (k = 0 \<longrightarrow> tail = [])
               \<and> (0 < k \<longrightarrow>
                    (r = Inr () \<and> tail = [Write (error_log_path output_root),
                                          Print (MsgErrorDetails (error_log_path output_root))])
                    \<or> ((\<exists>e. r = Inl e) \<and> tail = []))"
    unfolding Let_def pdfs_def w0_def .
qed


text \<open>
  The run with one PDF and a timeout on its first request: one segment, with the request,
  the sleep of the backoff, the second request, the write of the TEI file, the throttle and
  the write of \<^verbatim>\<open>meta.json\<close>; no failure and nothing after the totals.
\<close>

theorem pipeline_order_witness:
  "sort (glob_pdf [''pdfs''] diskW) = [pdfW] \<and>
   fst (item_run cfgW srv_flaky [''out''] [pdfW]
          (start_world cfgW [''pdfs''] [''out''] diskW worldW) 0) = Inr () \<and>
   (\<exists>segs.
      trace (snd (parse_pdfs_directory cfgW srv_flaky [''pdfs''] [''out''] worldW)) =
        Glob [''pdfs''] # banner cfgW [''pdfs''] [''out''] @ concat segs
          @ [Print (MsgDone 1), Print (MsgParseErrors 0)]
      \<and> length segs = 1
      \<and> segs ! 0 = [Post (api_url cfgW) pdfW, Sleep 5, Post (api_url cfgW) pdfW,
                    Write [''out'', ''a'', ''a.tei.xml''], Sleep (1 / 5),
                    Write [''out'', ''a'', ''meta.json'']]
      \<and> item_segment cfgW [''out''] pdfW (segs ! 0)
      \<and> hd (segs ! 0) = Post (api_url cfgW) pdfW
      \<and> (\<exists>calls. calls \<noteq> [] \<and> last calls = Post (api_url cfgW) pdfW \<and>
            segs ! 0 = calls @ success_events cfgW [''out''] pdfW diskW))"
proof -
  let ?w0 = "start_world cfgW [''pdfs''] [''out''] diskW worldW"
  have run: "parse_pdfs_directory cfgW srv_flaky [''pdfs''] [''out''] worldW =
        (fst (parse_pdfs_directory cfgW srv_flaky [''pdfs''] [''out''] worldW),
         snd (parse_pdfs_directory cfgW srv_flaky [''pdfs''] [''out''] worldW))"
    by simp
  have mk: "mkdir [''out''] (disk worldW) = (Inr (), diskW)" by code_simp
  have items: "sort (glob_pdf [''pdfs''] diskW) = [pdfW]" by code_simp
  have ne: "sort (glob_pdf [''pdfs''] diskW) \<noteq> []" by (simp add: items)
  have ok: "fst (item_run cfgW srv_flaky [''out''] [pdfW] ?w0 0) = Inr ()" by code_simp
  have tr: "trace (snd (item_run cfgW srv_flaky [''out''] [pdfW] ?w0 0)) =
      trace ?w0 @ [Post (api_url cfgW) pdfW, Sleep 5, Post (api_url cfgW) pdfW,
                    Write [''out'', ''a'', ''a.tei.xml''], Sleep (1 / 5),
                    Write [''out'', ''a'', ''meta.json'']]" by code_simp
  have d0: "disk ?w0 = diskW" by (simp add: start_world_def)
  have t0: "trace ?w0 = Glob [''pdfs''] # banner cfgW [''pdfs''] [''out'']"
    by (simp add: start_world_def worldW_def)
  have "lookup diskW pdfW = Some (File (Text ''%PDF-1.7''))" by code_simp
  then have isfile: "\<exists>f. lookup diskW pdfW = Some (File f)" by blast
  have mkd: "fst (mkdir (paper_dir [''out''] pdfW) diskW) = Inr ()" by code_simp
  from pipeline_order[OF run, THEN conjunct2, rule_format, OF mk, THEN conjunct2, rule_format, OF ne]
  obtain segs k tail where
    t: "trace (snd (parse_pdfs_directory cfgW srv_flaky [''pdfs''] [''out''] worldW)) =
          trace worldW @ Glob [''pdfs''] # banner cfgW [''pdfs''] [''out''] @ concat segs
            @ [Print (MsgDone (length [pdfW])), Print (MsgParseErrors k)] @ tail"
    and len: "length segs = length [pdfW]"
    and st: "item_start cfgW srv_flaky [''out''] [pdfW] ?w0 0 = ?w0"
    and it: "\<forall>i<length [pdfW].
                    item_start cfgW srv_flaky [''out''] [pdfW] ?w0 (Suc i)
                      = snd (item_run cfgW srv_flaky [''out''] [pdfW] ?w0 i)
                  \<and> trace (snd (item_run cfgW srv_flaky [''out''] [pdfW] ?w0 i))
                      = trace (item_start cfgW srv_flaky [''out''] [pdfW] ?w0 i) @ segs ! i
                  \<and> item_segment cfgW [''out''] ([pdfW] ! i) (segs ! i)
                  \<and> (fst (item_run cfgW srv_flaky [''out''] [pdfW] ?w0 i) = Inr () \<longrightarrow>
                       (\<exists>calls. list_all (call_event cfgW ([pdfW] ! i)) calls \<and> calls \<noteq> [] \<and>
                          last calls = Post (api_url cfgW) ([pdfW] ! i) \<and>
                          segs ! i = calls @ success_events cfgW [''out''] ([pdfW] ! i)
                                      (disk (item_start cfgW srv_flaky [''out''] [pdfW] ?w0 i))))
                  \<and> ((\<exists>f. lookup (disk (item_start cfgW srv_flaky [''out''] [pdfW] ?w0 i))
                              ([pdfW] ! i) = Some (File f)) \<and>
                      fst (mkdir (paper_dir [''out''] ([pdfW] ! i))
                             (disk (item_start cfgW srv_flaky [''out''] [pdfW] ?w0 i))) = Inr () \<longrightarrow>
                       segs ! i \<noteq> [] \<and> hd (segs ! i) = Post (api_url cfgW) ([pdfW] ! i))"
    and k: "k = length (filter (\<lambda>i. fst (item_run cfgW srv_flaky [''out''] [pdfW] ?w0 i) \<noteq> Inr ())
                                [0..<length [pdfW]])"
    and k0: "k = 0 \<longrightarrow> tail = []"
    unfolding Let_def items by blast
  from k ok have kz: "k = 0" by simp
  with k0 have tz: "tail = []" by simp
  from it have i0:
    "trace (snd (item_run cfgW srv_flaky [''out''] [pdfW] ?w0 0)) = trace ?w0 @ segs ! 0"
    "item_segment cfgW [''out''] pdfW (segs ! 0)"
    "fst (item_run cfgW srv_flaky [''out''] [pdfW] ?w0 0) = Inr () \<longrightarrow>
       (\<exists>calls. list_all (call_event cfgW pdfW) calls \<and> calls \<noteq> [] \<and>
          last calls = Post (api_url cfgW) pdfW \<and>
          segs ! 0 = calls @ success_events cfgW [''out''] pdfW diskW)"
    "(\<exists>f. lookup diskW pdfW = Some (File f)) \<and>
       fst (mkdir (paper_dir [''out''] pdfW) diskW) = Inr () \<longrightarrow>
       segs ! 0 \<noteq> [] \<and> hd (segs ! 0) = Post (api_url cfgW) pdfW"
    by (simp_all add: st d0)
  from i0(1) tr have s0: "segs ! 0 = [Post (api_url cfgW) pdfW, Sleep 5, Post (api_url cfgW) pdfW,
                    Write [''out'', ''a'', ''a.tei.xml''], Sleep (1 / 5),
                    Write [''out'', ''a'', ''meta.json'']]" by simp
  from i0(3) ok have shape: "\<exists>calls. calls \<noteq> [] \<and> last calls = Post (api_url cfgW) pdfW \<and>
            segs ! 0 = calls @ success_events cfgW [''out''] pdfW diskW" by blast
  from i0(4) isfile mkd have first: "hd (segs ! 0) = Post (api_url cfgW) pdfW" by blast
  have tw: "trace worldW = []" by (simp add: worldW_def)
  have whole: "trace (snd (parse_pdfs_directory cfgW srv_flaky [''pdfs''] [''out''] worldW)) =
        Glob [''pdfs''] # banner cfgW [''pdfs''] [''out''] @ concat segs
          @ [Print (MsgDone 1), Print (MsgParseErrors 0)]"
    using t kz tz tw by simp
  have len1: "length segs = 1" using len by simp
  show ?thesis
    apply (intro conjI)
      apply (rule items)
     apply (rule ok)
    apply (rule exI[of _ segs])
    apply (intro conjI)
         apply (rule whole)
        apply (rule len1)
       apply (rule s0)
      apply (rule i0(2))
     apply (rule first)
    apply (rule shape)
    done
qed

text \<open>
  Claim C6. The throttle is \<open>GROBID_SLEEP = 0.2\<close> seconds, the service answers the first PDF
  with a text that is no document and the second PDF with a document. The request for
  \<^verbatim>\<open>b.pdf\<close> follows the request for \<^verbatim>\<open>a.pdf\<close> with no sleep between them: the sleep is in the
  \<^verbatim>\<open>try\<close> block after the call, and the exception of a failed item skips it. After the
  successful item the sleep occurs.
\<close>

theorem throttle_skipped_after_failure:
  "0 < GROBID_SLEEP cfgW \<and>
   trace (snd (parse_pdfs_directory cfgW srv_bad_then_good [''pdfs''] [''out''] world2W)) =
     [Glob [''pdfs''], Print (MsgUsingGrobid ''http://localhost:8070''),
      Print (MsgSleep (1 / 5)), Print (MsgParsingFrom [''pdfs'']),
      Print (MsgWritingUnder [''out'']),
      Post ''http://localhost:8070/api/processFulltextDocument'' [''pdfs'', ''a.pdf''],
      Post ''http://localhost:8070/api/processFulltextDocument'' [''pdfs'', ''b.pdf''],
      Write [''out'', ''b'', ''b.tei.xml''], Sleep (1 / 5),
      Write [''out'', ''b'', ''meta.json''],
      Print (MsgDone 2), Print (MsgParseErrors 1),
      Write [''out'', ''grobid_errors_local.json''],
      Print (MsgErrorDetails [''out'', ''grobid_errors_local.json''])]"
  by code_simp

lemma mkdir_file_at: "mkdir p fs = (r, fs') \<Longrightarrow> file_at fs' = file_at fs"
  using dirs_added_file_at[OF mkdir_dirs_added] by blast

lemma parse_pdfs_directory_files:
  assumes "parse_pdfs_directory cfg srv input_dir rt w = (r, w')"
    and ch: "file_at (disk w') p \<noteq> file_at (disk w) p"
  shows "(\<exists>pdf\<in>set (glob_pdf input_dir (snd (mkdir rt (disk w)))).
            (p = tei_path rt pdf \<and> (\<exists>t. file_at (disk w') p = Some (Text t))) \<or>
            (p = meta_path rt pdf \<and> file_at (disk w) p = None \<and>
               file_at (disk w') p = Some (MetaJson (make_meta pdf))))
       \<or> (p = error_log_path rt \<and>
           (\<exists>errs. errs \<noteq> [] \<and> file_at (disk w') p = Some (ErrorsJson errs)))"
proof (cases "mkdir rt (disk w)")
  case (Pair rm fs0)
  note f0 = mkdir_file_at[OF Pair]
  have none0: "lookup fs0 q = None \<Longrightarrow> file_at (disk w) q = None" for q
    using f0 by (metis file_at_def option.simps(4))
  show ?thesis
  proof (cases rm)
    case (Inl e)
    with Pair parse_pdfs_directory_failed_mkdir[of rt w e fs0 cfg srv input_dir] assms f0
    show ?thesis by simp
  next
    case (Inr u)
    then have mk: "mkdir rt (disk w) = (Inr (), fs0)" using Pair by simp
    let ?pdfs = "sort (glob_pdf input_dir fs0)"
    show ?thesis
    proof (cases "?pdfs = []")
      case True
      from parse_pdfs_directory_empty[OF mk True, of cfg srv] assms f0 show ?thesis by auto
    next
      case False
      obtain w2 errs where loop: "parse_loop cfg srv rt (enumerate 1 ?pdfs)
           (start_world cfg input_dir rt fs0 w, []) = (w2, errs)"
        by (cases "parse_loop cfg srv rt (enumerate 1 ?pdfs) (start_world cfg input_dir rt fs0 w, [])")
      from parse_pdfs_directory_run[OF mk False loop] assms
      have rep: "report rt (length ?pdfs) errs w2 = (r, w')" by simp
      have "changes rt (snd ` set (enumerate 1 ?pdfs)) (disk (start_world cfg input_dir rt fs0 w)) (disk w2)"
        by (rule parse_loop_changes[OF loop])
      moreover have "snd ` set (enumerate 1 ?pdfs) = set (glob_pdf input_dir fs0)"
        using map_snd_enumerate[of 1 ?pdfs] by (metis set_map set_sort)
      ultimately have c: "changes rt (set (glob_pdf input_dir fs0)) fs0 (disk w2)"
        by (simp add: start_world_def)
      from report_effect[OF rep] consider
        (same) "disk w' = disk w2"
        | (log) "errs \<noteq> []" "disk w' = store (error_log_path rt) (File (ErrorsJson errs)) (disk w2)"
        by blast
      then show ?thesis
      proof cases
        case same
        with ch f0 have "file_at (disk w2) p \<noteq> file_at fs0 p" by simp
        from changes_files[OF c this] same none0 Pair show ?thesis
          by auto
      next
        case log
        show ?thesis
        proof (cases "p = error_log_path rt")
          case True
          with log show ?thesis by (auto simp: file_at_store_File)
        next
          case False
          with log ch f0 have "file_at (disk w2) p \<noteq> file_at fs0 p" by (simp add: file_at_store_File)
          from changes_files[OF c this] log False none0 Pair show ?thesis
            by (auto simp: file_at_store_File)
        qed
      qed
    qed
  qed
qed

text \<open>
  Claim C7. Whatever regular file differs after a run of \<open>parse_pdfs_directory\<close> (or of
  \<open>main\<close>, which calls it on \<^verbatim>\<open>pdfs\<close> and \<^verbatim>\<open>pdfs_parsed\<close>) is the TEI file of an input PDF
  and holds text, or the \<^verbatim>\<open>meta.json\<close> of an input PDF, which did not exist before and holds the
  metadata record, or the error log, which holds a list of errors that is not empty.
  Directories are the only other thing a run creates.
\<close>

theorem only_output_files_written:
  "(parse_pdfs_directory cfg srv input_dir output_root w = (r, w') \<longrightarrow>
      (\<forall>p. file_at (disk w') p \<noteq> file_at (disk w) p \<longrightarrow>
         (\<exists>pdf\<in>set (glob_pdf input_dir (snd (mkdir output_root (disk w)))).
            (p = tei_path output_root pdf \<and> (\<exists>t. file_at (disk w') p = Some (Text t))) \<or>
            (p = meta_path output_root pdf \<and> file_at (disk w) p = None \<and>
               file_at (disk w') p = Some (MetaJson (make_meta pdf))))
         \<or> (p = error_log_path output_root \<and>
             (\<exists>errs. errs \<noteq> [] \<and> file_at (disk w') p = Some (ErrorsJson errs)))))
   \<and> (main cfg srv repo_root w = (r, w') \<longrightarrow>
      (\<forall>p. file_at (disk w') p \<noteq> file_at (disk w) p \<longrightarrow>
         (\<exists>pdf\<in>set (glob_pdf (joinpath repo_root ''pdfs'')
                      (snd (mkdir (joinpath repo_root ''pdfs_parsed'') (disk w)))).
            (p = tei_path (joinpath repo_root ''pdfs_parsed'') pdf \<and>
               (\<exists>t. file_at (disk w') p = Some (Text t))) \<or>
            (p = meta_path (joinpath repo_root ''pdfs_parsed'') pdf \<and> file_at (disk w) p = None \<and>
               file_at (disk w') p = Some (MetaJson (make_meta pdf))))
         \<or> (p = error_log_path (joinpath repo_root ''pdfs_parsed'') \<and>
             (\<exists>errs. errs \<noteq> [] \<and> file_at (disk w') p = Some (ErrorsJson errs)))))"
proof (intro conjI impI allI)
  fix p
  assume "parse_pdfs_directory cfg srv input_dir output_root w = (r, w')"
    "file_at (disk w') p \<noteq> file_at (disk w) p"
  from parse_pdfs_directory_files[OF this]
  show "(\<exists>pdf\<in>set (glob_pdf input_dir (snd (mkdir output_root (disk w)))).
            (p = tei_path output_root pdf \<and> (\<exists>t. file_at (disk w') p = Some (Text t))) \<or>
            (p = meta_path output_root pdf \<and> file_at (disk w) p = None \<and>
               file_at (disk w') p = Some (MetaJson (make_meta pdf))))
         \<or> (p = error_log_path output_root \<and>
             (\<exists>errs. errs \<noteq> [] \<and> file_at (disk w') p = Some (ErrorsJson errs)))" .
next
  fix p
  assume m: "main cfg srv repo_root w = (r, w')" and ch: "file_at (disk w') p \<noteq> file_at (disk w) p"
  from m ch have "parse_pdfs_directory cfg srv (joinpath repo_root ''pdfs'')
             (joinpath repo_root ''pdfs_parsed'') w = (r, w')"
    by (auto simp: main_def split: if_splits)
  from parse_pdfs_directory_files[OF this ch]
  show "(\<exists>pdf\<in>set (glob_pdf (joinpath repo_root ''pdfs'')
                      (snd (mkdir (joinpath repo_root ''pdfs_parsed'') (disk w)))).
            (p = tei_path (joinpath repo_root ''pdfs_parsed'') pdf \<and>
               (\<exists>t. file_at (disk w') p = Some (Text t))) \<or>
            (p = meta_path (joinpath repo_root ''pdfs_parsed'') pdf \<and> file_at (disk w) p = None \<and>
               file_at (disk w') p = Some (MetaJson (make_meta pdf))))
         \<or> (p = error_log_path (joinpath repo_root ''pdfs_parsed'') \<and>
             (\<exists>errs. errs \<noteq> [] \<and> file_at (disk w') p = Some (ErrorsJson errs)))" .
qed


text \<open>The TEI file of \<^verbatim>\<open>a.pdf\<close> is new after the run, and it is the TEI file of an input.\<close>

theorem only_output_files_written_witness:
  "file_at (disk (snd (parse_pdfs_directory cfgW srv_flaky [''pdfs''] [''out''] worldW)))
      [''out'', ''a'', ''a.tei.xml'']
     \<noteq> file_at (disk worldW) [''out'', ''a'', ''a.tei.xml'']
   \<and> ((\<exists>pdf\<in>set (glob_pdf [''pdfs''] (snd (mkdir [''out''] (disk worldW)))).
            ([''out'', ''a'', ''a.tei.xml''] = tei_path [''out''] pdf \<and>
             (\<exists>t. file_at (disk (snd (parse_pdfs_directory cfgW srv_flaky [''pdfs''] [''out''] worldW)))
                    [''out'', ''a'', ''a.tei.xml''] = Some (Text t))) \<or>
            ([''out'', ''a'', ''a.tei.xml''] = meta_path [''out''] pdf \<and>
             file_at (disk worldW) [''out'', ''a'', ''a.tei.xml''] = None \<and>
             file_at (disk (snd (parse_pdfs_directory cfgW srv_flaky [''pdfs''] [''out''] worldW)))
               [''out'', ''a'', ''a.tei.xml''] = Some (MetaJson (make_meta pdf))))
       \<or> ([''out'', ''a'', ''a.tei.xml''] = error_log_path [''out''] \<and>
           (\<exists>errs. errs \<noteq> [] \<and>
              file_at (disk (snd (parse_pdfs_directory cfgW srv_flaky [''pdfs''] [''out''] worldW)))
                [''out'', ''a'', ''a.tei.xml''] = Some (ErrorsJson errs))))"
proof -
  have run: "parse_pdfs_directory cfgW srv_flaky [''pdfs''] [''out''] worldW =
        (fst (parse_pdfs_directory cfgW srv_flaky [''pdfs''] [''out''] worldW),
         snd (parse_pdfs_directory cfgW srv_flaky [''pdfs''] [''out''] worldW))"
    by simp
  have ch: "file_at (disk (snd (parse_pdfs_directory cfgW srv_flaky [''pdfs''] [''out''] worldW)))
      [''out'', ''a'', ''a.tei.xml'']
     \<noteq> file_at (disk worldW) [''out'', ''a'', ''a.tei.xml'']"
    by code_simp
  from only_output_files_written[where repo_root="[]", THEN conjunct1, rule_format, OF run ch] ch
  show ?thesis by blast
qed

text \<open>
  Claim C8. A \<^verbatim>\<open>meta.json\<close> that is a file before a run has the same content after it. When
  the processing of an item succeeds, a request was made, the TEI file holds the stripped
  text of the response to the last request, whatever it held before, and the write is among
  the events of the item.
\<close>

theorem meta_kept_tei_rewritten:
  "(parse_pdfs_directory cfg srv input_dir output_root w = (r, w') \<and>
      file_at (disk w) (meta_path output_root pdf_path) = Some c \<longrightarrow>
      file_at (disk w') (meta_path output_root pdf_path) = Some c)
   \<and> (try_item cfg srv output_root pdf_path w = (Inr (), w1) \<longrightarrow>
        posts w < posts w1 \<and>
        (\<exists>status_code body. srv (posts w1 - 1) = Response status_code body \<and>
            file_at (disk w1) (tei_path output_root pdf_path) = Some (Text (strip body))) \<and>
        Write (tei_path output_root pdf_path) \<in> set (drop (length (trace w)) (trace w1)))"
proof (intro conjI impI; (elim conjE)?)
  assume run: "parse_pdfs_directory cfg srv input_dir output_root w = (r, w')"
    and c: "file_at (disk w) (meta_path output_root pdf_path) = Some c"
  show "file_at (disk w') (meta_path output_root pdf_path) = Some c"
  proof (rule ccontr)
    assume "file_at (disk w') (meta_path output_root pdf_path) \<noteq> Some c"
    with c have "file_at (disk w') (meta_path output_root pdf_path)
                 \<noteq> file_at (disk w) (meta_path output_root pdf_path)" by simp
    from parse_pdfs_directory_files[OF run this] c
      tei_neq_meta[of output_root _ output_root pdf_path] meta_neq_log[of output_root pdf_path output_root]
    show False by (auto; metis)
  qed
next
  assume ok: "try_item cfg srv output_root pdf_path w = (Inr (), w1)"
  from try_item_success[OF ok] show "posts w < posts w1" by simp
  from try_item_success[OF ok]
  show "\<exists>status_code body. srv (posts w1 - 1) = Response status_code body \<and>
            file_at (disk w1) (tei_path output_root pdf_path) = Some (Text (strip body))"
    by (auto simp: file_at_def)
  from try_item_trace[OF ok] obtain calls tail where
    "trace w1 = trace w @ calls @ tail" "Write (tei_path output_root pdf_path) \<in> set tail"
    by (metis append_Cons list.set_intros(1))
  then show "Write (tei_path output_root pdf_path) \<in> set (drop (length (trace w)) (trace w1))"
    by simp
qed

text \<open>
  A folder that holds a \<^verbatim>\<open>meta.json\<close> and a TEI file already: the first is kept, the second
  replaced.
\<close>

theorem meta_kept_tei_rewritten_witness:
  "file_at (disk worldM) [''out'', ''a'', ''meta.json''] = Some (Text ''kept'') \<and>
   file_at (disk (snd (parse_pdfs_directory cfgW srv_flaky [''pdfs''] [''out''] worldM)))
      [''out'', ''a'', ''meta.json''] = Some (Text ''kept'') \<and>
   file_at (disk worldM) [''out'', ''a'', ''a.tei.xml''] = Some (Text ''old'') \<and>
   file_at (disk (snd (try_item cfgW srv_flaky [''out''] pdfW worldM)))
      [''out'', ''a'', ''a.tei.xml''] = Some (Text ''<TEI>a</TEI>'') \<and>
   Write [''out'', ''a'', ''a.tei.xml'']
      \<in> set (drop (length (trace worldM)) (trace (snd (try_item cfgW srv_flaky [''out''] pdfW worldM))))"
proof -
  have run: "parse_pdfs_directory cfgW srv_flaky [''pdfs''] [''out''] worldM =
        (fst (parse_pdfs_directory cfgW srv_flaky [''pdfs''] [''out''] worldM),
         snd (parse_pdfs_directory cfgW srv_flaky [''pdfs''] [''out''] worldM))"
    by simp
  have mp: "meta_path [''out''] pdfW = [''out'', ''a'', ''meta.json'']" by code_simp
  have tp: "tei_path [''out''] pdfW = [''out'', ''a'', ''a.tei.xml'']" by code_simp
  have kept: "file_at (disk worldM) (meta_path [''out''] pdfW) = Some (Text ''kept'')" by code_simp
  have old: "file_at (disk worldM) [''out'', ''a'', ''a.tei.xml''] = Some (Text ''old'')" by code_simp
  have ok: "try_item cfgW srv_flaky [''out''] pdfW worldM
            = (Inr (), snd (try_item cfgW srv_flaky [''out''] pdfW worldM))"
  proof -
    have "fst (try_item cfgW srv_flaky [''out''] pdfW worldM) = Inr ()" by code_simp
    then show ?thesis by (metis prod.collapse)
  qed
  have last: "srv_flaky (posts (snd (try_item cfgW srv_flaky [''out''] pdfW worldM)) - 1)
              = Response 200 ''<TEI>a</TEI>''" by code_simp
  have st: "strip ''<TEI>a</TEI>'' = ''<TEI>a</TEI>''" by code_simp
  note inst = meta_kept_tei_rewritten[where cfg=cfgW and srv=srv_flaky and output_root="[''out'']"
      and pdf_path=pdfW and w=worldM and input_dir="[''pdfs'']"
      and r="fst (parse_pdfs_directory cfgW srv_flaky [''pdfs''] [''out''] worldM)"
      and w'="snd (parse_pdfs_directory cfgW srv_flaky [''pdfs''] [''out''] worldM)"
      and c="Text ''kept''"
      and ?w1.0="snd (try_item cfgW srv_flaky [''out''] pdfW worldM)"]
  from inst[THEN conjunct1, rule_format, OF conjI[OF run kept]]
  have 1: "file_at (disk (snd (parse_pdfs_directory cfgW srv_flaky [''pdfs''] [''out''] worldM)))
      [''out'', ''a'', ''meta.json''] = Some (Text ''kept'')" unfolding mp .
  from inst[THEN conjunct2, rule_format, OF ok] last st
  have 2: "file_at (disk (snd (try_item cfgW srv_flaky [''out''] pdfW worldM)))
      [''out'', ''a'', ''a.tei.xml''] = Some (Text ''<TEI>a</TEI>'')"
    and 3: "Write [''out'', ''a'', ''a.tei.xml'']
      \<in> set (drop (length (trace worldM)) (trace (snd (try_item cfgW srv_flaky [''out''] pdfW worldM))))"
    unfolding tp by auto
  from kept old 1 2 3 show ?thesis unfolding mp by simp
qed

lemma parse_loop_records:
  assumes "parse_loop cfg srv rt (enumerate n pre) (w0, errs0) = (w1, errs1)"
    and "try_item cfg srv rt pdf w1 = (Inl e, w2)"
    and "parse_loop cfg srv rt (enumerate n (pre @ pdf # post)) (w0, errs0) = (w3, errs3)"
  shows "(n + length pre, folder_name pdf, e) \<in> set errs3
       \<and> parse_loop cfg srv rt (enumerate (Suc (n + length pre)) post)
            (w2, errs1 @ [(n + length pre, folder_name pdf, e)]) = (w3, errs3)"
proof -
  have en: "enumerate n (pre @ pdf # post) =
      enumerate n pre @ (n + length pre, pdf) # enumerate (Suc (n + length pre)) post"
    by (simp add: enumerate_append_eq)
  have rest: "parse_loop cfg srv rt (enumerate (Suc (n + length pre)) post)
            (w2, errs1 @ [(n + length pre, folder_name pdf, e)]) = (w3, errs3)"
    using assms unfolding en parse_loop_append by simp
  from parse_loop_errors_grow[OF rest] show ?thesis using rest by auto
qed

lemma report_dir:
  assumes "report rt n errs w = (r, w')" "errs \<noteq> []"
    "lookup (disk w') (error_log_path rt) = Some Dir"
  shows "r = Inl (OSError EISDIR) \<and> disk w' = disk w"
  using assms
  by (auto simp: report_def Let_def emit_def write_file_def lookup_store
      split: if_splits sum.splits option.splits node.splits)

lemma log_prefix_paper_dir:
  assumes "prefix (error_log_path rt) (paper_dir rt pdf)"
  shows "folder_name pdf = ''grobid_errors_local.json''"
  using assms
  by (auto simp: error_log_path_eq paper_dir_def joinpath_def prefix_def split: if_splits)

text \<open>
  Claim C2, as amended. Let the processing of the PDF at position \<open>length pre + 1\<close> of the
  sorted enumeration fail with \<open>e\<close>. Every request of the item that is followed by another
  request of the item got a network error, and an attempt that fails with an \<open>e\<close> that is not a
  network error ends the retry loop at once with \<open>e\<close>: a failure that is not a network error
  is never followed by a retry. At the end of the run the failures are written to the error
  log, unless the path of the log is a directory. When it is not one, the run returns normally
  and the error log holds a list with the entry (position, folder name, \<open>e\<close>). When it is one,
  the run ends with the error of \<^verbatim>\<open>open\<close> (\<open>IsADirectoryError\<close>) and there is no error log. The
  path of the log is no directory at the end when it was none after the creation of the output
  root and no input has the folder name \<^verbatim>\<open>grobid_errors_local.json\<close>.
\<close>

theorem non_network_failure_recorded:
  assumes mk: "mkdir output_root (disk w) = (Inr (), fs0)"
    and items: "sort (glob_pdf input_dir fs0) = pre @ pdf_path # post"
    and before: "parse_loop cfg srv output_root (enumerate 1 pre)
                   (start_world cfg input_dir output_root fs0 w, []) = (w1, errs1)"
    and fail: "try_item cfg srv output_root pdf_path w1 = (Inl e, w2)"
    and run: "parse_pdfs_directory cfg srv input_dir output_root w = (r, w')"
  shows "(\<forall>i. posts w1 + i + 1 < posts w2 \<longrightarrow> net_error (srv (posts w1 + i)) \<noteq> None)
    \<and> (\<forall>out retries backoff attempt rest ws ws'.
          attempt_once cfg srv pdf_path out ws = (Inl e, ws') \<and> \<not> is_RequestException e \<longrightarrow>
          attempts cfg srv pdf_path out retries backoff (attempt # rest) ws = (Inl e, ws'))
    \<and> (lookup (disk w') (error_log_path output_root) \<noteq> Some Dir \<longrightarrow>
          r = Inr () \<and>
          (\<exists>errors_parse. file_at (disk w') (error_log_path output_root) = Some (ErrorsJson errors_parse)
             \<and> (Suc (length pre), folder_name pdf_path, e) \<in> set errors_parse))
    \<and> (lookup (disk w') (error_log_path output_root) = Some Dir \<longrightarrow>
          r = Inl (OSError EISDIR) \<and> file_at (disk w') (error_log_path output_root) = None)
    \<and> (lookup fs0 (error_log_path output_root) \<noteq> Some Dir \<and>
        (\<forall>p \<in> set (pre @ pdf_path # post). folder_name p \<noteq> ''grobid_errors_local.json'') \<longrightarrow>
          lookup (disk w') (error_log_path output_root) \<noteq> Some Dir)"
proof -
  let ?pdfs = "sort (glob_pdf input_dir fs0)"
  let ?log = "error_log_path output_root"
  have ne: "?pdfs \<noteq> []" using items by simp
  obtain w3 errs where loop: "parse_loop cfg srv output_root (enumerate 1 ?pdfs)
           (start_world cfg input_dir output_root fs0 w, []) = (w3, errs)"
    by (cases "parse_loop cfg srv output_root (enumerate 1 ?pdfs)
           (start_world cfg input_dir output_root fs0 w, [])")
  from parse_pdfs_directory_run[OF mk ne loop] run
  have rep: "report output_root (length ?pdfs) errs w3 = (r, w')" by simp
  from parse_loop_records[OF before fail loop[unfolded items]]
  have mem: "(Suc (length pre), folder_name pdf_path, e) \<in> set errs" by simp
  then have errs: "errs \<noteq> []" by auto
  have dir0: "lookup fs0 output_root = Some Dir" by (rule mkdir_ok_is_dir[OF mk])
  have img: "snd ` set (enumerate 1 ?pdfs) = set ?pdfs"
    unfolding set_map[symmetric] map_snd_enumerate ..
  have ch: "changes output_root (set ?pdfs) fs0 (disk w3)"
    using parse_loop_changes[OF loop] unfolding img by (simp add: start_world_def)
  have dir3: "lookup (disk w3) output_root = Some Dir"
    using changes_keeps_dir[OF ch dir0] .
  have A: "\<forall>i. posts w1 + i + 1 < posts w2 \<longrightarrow> net_error (srv (posts w1 + i)) \<noteq> None"
    using try_item_retry_after_net[OF fail] by blast
  have B: "\<forall>out retries backoff attempt rest ws ws'.
          attempt_once cfg srv pdf_path out ws = (Inl e, ws') \<and> \<not> is_RequestException e \<longrightarrow>
          attempts cfg srv pdf_path out retries backoff (attempt # rest) ws = (Inl e, ws')"
    by simp
  have C: "r = Inr () \<and>
          (\<exists>errors_parse. file_at (disk w') ?log = Some (ErrorsJson errors_parse)
             \<and> (Suc (length pre), folder_name pdf_path, e) \<in> set errors_parse)"
    if nd: "lookup (disk w') ?log \<noteq> Some Dir"
  proof -
    have nd3: "lookup (disk w3) ?log \<noteq> Some Dir"
      using report_effect[OF rep] nd by (auto simp: lookup_store)
    from report_ok[OF errs nd3 dir3, of "length ?pdfs"] rep
    have "r = Inr ()" "disk w' = store ?log (File (ErrorsJson errs)) (disk w3)"
      by auto
    with mem show ?thesis by (auto simp: file_at_store_File)
  qed
  have D: "r = Inl (OSError EISDIR) \<and> file_at (disk w') ?log = None"
    if d: "lookup (disk w') ?log = Some Dir"
    using report_dir[OF rep errs d] d by (simp add: file_at_def)
  have E: "lookup (disk w') ?log \<noteq> Some Dir"
    if nd0: "lookup fs0 ?log \<noteq> Some Dir"
      and names: "\<forall>p \<in> set (pre @ pdf_path # post). folder_name p \<noteq> ''grobid_errors_local.json''"
  proof
    assume d: "lookup (disk w') ?log = Some Dir"
    from report_dir[OF rep errs d] d have d3: "lookup (disk w3) ?log = Some Dir" by simp
    from changes_new_dir[OF ch d3 nd0] obtain pdf where
      "pdf \<in> set ?pdfs" "prefix ?log (paper_dir output_root pdf)" by blast
    with log_prefix_paper_dir[of output_root pdf] names show False
      unfolding items by blast
  qed
  from A B C D E show ?thesis by blast
qed

text \<open>
  The claim as it stands fails on an input named \<^verbatim>\<open>grobid_errors_local.json.pdf\<close>: its output
  folder is the path of the error log. The item fails with the \<open>ValueError\<close> of the check of the
  response after one request, and at the end of the run the log cannot be opened: the run
  raises, and the failure of the item is recorded nowhere.
\<close>

theorem failure_not_recorded_counterexample:
  "sort (glob_pdf [''pdfs''] diskL) = [pdfL] \<and>
   fst (try_item cfgW srv_empty [''out''] pdfL (start_world cfgW [''pdfs''] [''out''] diskL worldL))
     = Inl (ValueError ''Grobid returned empty or non-TEI response'') \<and>
   fst (parse_pdfs_directory cfgW srv_empty [''pdfs''] [''out''] worldL) = Inl (OSError EISDIR) \<and>
   disk (snd (parse_pdfs_directory cfgW srv_empty [''pdfs''] [''out''] worldL))
     = diskL @ [([''out'', ''grobid_errors_local.json''], Dir)] \<and>
   posts (snd (parse_pdfs_directory cfgW srv_empty [''pdfs''] [''out''] worldL)) = 1 \<and>
   error_log_path [''out''] = [''out'', ''grobid_errors_local.json''] \<and>
   file_at (disk (snd (parse_pdfs_directory cfgW srv_empty [''pdfs''] [''out''] worldL)))
     (error_log_path [''out'']) = None"
  by code_simp


text \<open>
  A response of three spaces: one request, the \<open>ValueError\<close>, and the entry for item 1 in
  the error log; with the input \<^verbatim>\<open>grobid_errors_local.json.pdf\<close>, a directory at the path of the
  log, the error of \<^verbatim>\<open>open\<close> and no log.
\<close>

theorem non_network_failure_recorded_witness:
  "try_item cfgW srv_empty [''out''] pdfW (start_world cfgW [''pdfs''] [''out''] diskW worldW)
     = (Inl (ValueError ''Grobid returned empty or non-TEI response''),
        snd (try_item cfgW srv_empty [''out''] pdfW (start_world cfgW [''pdfs''] [''out''] diskW worldW)))
   \<and> posts (snd (try_item cfgW srv_empty [''out''] pdfW (start_world cfgW [''pdfs''] [''out''] diskW worldW))) = 1
   \<and> fst (parse_pdfs_directory cfgW srv_empty [''pdfs''] [''out''] worldW) = Inr ()
   \<and> (\<exists>errors_parse.
        file_at (disk (snd (parse_pdfs_directory cfgW srv_empty [''pdfs''] [''out''] worldW)))
          (error_log_path [''out'']) = Some (ErrorsJson errors_parse)
        \<and> (Suc (length ([] :: path list)), folder_name pdfW,
            ValueError ''Grobid returned empty or non-TEI response'') \<in> set errors_parse)
   \<and> lookup (disk (snd (parse_pdfs_directory cfgW srv_empty [''pdfs''] [''out''] worldL)))
        (error_log_path [''out'']) = Some Dir
   \<and> fst (parse_pdfs_directory cfgW srv_empty [''pdfs''] [''out''] worldL) = Inl (OSError EISDIR)
   \<and> file_at (disk (snd (parse_pdfs_directory cfgW srv_empty [''pdfs''] [''out''] worldL)))
        (error_log_path [''out'']) = None"
proof -
  let ?w0 = "start_world cfgW [''pdfs''] [''out''] diskW worldW"
  let ?v0 = "start_world cfgW [''pdfs''] [''out''] diskL worldL"
  let ?e = "ValueError ''Grobid returned empty or non-TEI response''"
  have run: "parse_pdfs_directory cfgW srv_empty [''pdfs''] [''out''] worldW =
        (fst (parse_pdfs_directory cfgW srv_empty [''pdfs''] [''out''] worldW),
         snd (parse_pdfs_directory cfgW srv_empty [''pdfs''] [''out''] worldW))"
    by simp
  have mk: "mkdir [''out''] (disk worldW) = (Inr (), diskW)" by code_simp
  have items: "sort (glob_pdf [''pdfs''] diskW) = [] @ pdfW # []" by code_simp
  have before: "parse_loop cfgW srv_empty [''out''] (enumerate 1 []) (?w0, []) = (?w0, [])" by simp
  have fail: "try_item cfgW srv_empty [''out''] pdfW ?w0 = (Inl ?e, snd (try_item cfgW srv_empty [''out''] pdfW ?w0))"
  proof -
    have "fst (try_item cfgW srv_empty [''out''] pdfW ?w0) = Inl ?e" by code_simp
    then show ?thesis by (metis prod.collapse)
  qed
  have p: "posts (snd (try_item cfgW srv_empty [''out''] pdfW ?w0)) = 1" by code_simp
  have nd0: "lookup diskW (error_log_path [''out'']) \<noteq> Some Dir" by code_simp
  have names: "\<forall>p \<in> set ([] @ pdfW # []). folder_name p \<noteq> ''grobid_errors_local.json''"
    by code_simp
  note inst = non_network_failure_recorded[OF mk items before fail run]
  from inst[THEN conjunct2, THEN conjunct2, THEN conjunct2, THEN conjunct2, rule_format] nd0 names
  have nd: "lookup (disk (snd (parse_pdfs_directory cfgW srv_empty [''pdfs''] [''out''] worldW)))
              (error_log_path [''out'']) \<noteq> Some Dir" by blast
  note rec = inst[THEN conjunct2, THEN conjunct2, THEN conjunct1, rule_format, OF nd]
  have runL: "parse_pdfs_directory cfgW srv_empty [''pdfs''] [''out''] worldL =
        (fst (parse_pdfs_directory cfgW srv_empty [''pdfs''] [''out''] worldL),
         snd (parse_pdfs_directory cfgW srv_empty [''pdfs''] [''out''] worldL))"
    by simp
  have mkL: "mkdir [''out''] (disk worldL) = (Inr (), diskL)" by code_simp
  have itemsL: "sort (glob_pdf [''pdfs''] diskL) = [] @ pdfL # []" by code_simp
  have beforeL: "parse_loop cfgW srv_empty [''out''] (enumerate 1 []) (?v0, []) = (?v0, [])" by simp
  have failL: "try_item cfgW srv_empty [''out''] pdfL ?v0 = (Inl ?e, snd (try_item cfgW srv_empty [''out''] pdfL ?v0))"
  proof -
    have "fst (try_item cfgW srv_empty [''out''] pdfL ?v0) = Inl ?e" by code_simp
    then show ?thesis by (metis prod.collapse)
  qed
  have isdir: "lookup (disk (snd (parse_pdfs_directory cfgW srv_empty [''pdfs''] [''out''] worldL)))
              (error_log_path [''out'']) = Some Dir" by code_simp
  note nolog = non_network_failure_recorded[OF mkL itemsL beforeL failL runL,
      THEN conjunct2, THEN conjunct2, THEN conjunct2, THEN conjunct1, rule_format, OF isdir]
  from rec nolog fail p isdir show ?thesis by simp
qed

section \<open>Output folders\<close>

lemma rfind_append: "c \<notin> set ys \<Longrightarrow> rfind c (xs @ c # ys) = Some (length xs)"
proof (induction xs)
  case Nil
  have "rfind c ys = None" using Nil by (induction ys) auto
  then show ?case by simp
next
  case (Cons x xs)
  then show ?case by simp
qed

lemma stem_pdf: "s \<noteq> [] \<Longrightarrow> stem (s @ ''.pdf'') = s"
  using rfind_append[of "CHR ''.''" "''pdf''" s] by (simp add: stem_def)

lemma stem_dot_pdf: "stem ''.pdf'' = ''.pdf''"
  by (simp add: stem_def)

lemma startswith_iff: "startswith p s \<longleftrightarrow> (\<exists>r. s = p @ r)"
  by (induction p s rule: startswith.induct) auto

lemma endswith_iff: "endswith suf s \<longleftrightarrow> (\<exists>r. s = r @ suf)"
proof -
  have "endswith suf s \<longleftrightarrow> (\<exists>r. rev s = rev suf @ r)"
    by (simp add: endswith_def startswith_iff)
  also have "\<dots> \<longleftrightarrow> (\<exists>r. s = r @ suf)"
  proof
    assume "\<exists>r. rev s = rev suf @ r"
    then obtain r where "rev s = rev suf @ r" by blast
    then have "s = rev r @ suf" by (metis rev_append rev_rev_ident)
    then show "\<exists>r. s = r @ suf" by blast
  next
    assume "\<exists>r. s = r @ suf"
    then show "\<exists>r. rev s = rev suf @ r" by auto
  qed
  finally show ?thesis .
qed

lemma joinpath_inj: "x \<noteq> [] \<Longrightarrow> y \<noteq> [] \<Longrightarrow> joinpath rt x = joinpath rt y \<longleftrightarrow> x = y"
  by (auto simp: joinpath_def)

lemma folder_name_pdf: "folder_name (d @ [s @ ''.pdf'']) = (if s = [] then ''.pdf'' else s)"
  by (simp add: folder_name_def name_def stem_pdf stem_dot_pdf)

lemma paper_dir_shared:
  assumes "endswith ''.pdf'' n1" "endswith ''.pdf'' n2" "n1 \<noteq> n2"
  shows "paper_dir rt (d @ [n1]) = paper_dir rt (d @ [n2]) \<longleftrightarrow> {n1, n2} = {''.pdf'', ''.pdf.pdf''}"
proof -
  from assms obtain s1 s2 where s: "n1 = s1 @ ''.pdf''" "n2 = s2 @ ''.pdf''" "s1 \<noteq> s2"
    by (auto simp: endswith_iff)
  have ne: "folder_name (d @ [n1]) \<noteq> []" "folder_name (d @ [n2]) \<noteq> []"
    unfolding s folder_name_pdf by auto
  have "paper_dir rt (d @ [n1]) = paper_dir rt (d @ [n2]) \<longleftrightarrow>
        folder_name (d @ [n1]) = folder_name (d @ [n2])"
    unfolding paper_dir_def by (rule joinpath_inj[OF ne])
  also have "\<dots> \<longleftrightarrow> (s1 = [] \<and> s2 = ''.pdf'') \<or> (s2 = [] \<and> s1 = ''.pdf'')"
    unfolding s folder_name_pdf using s(3) by auto
  also have "\<dots> \<longleftrightarrow> {n1, n2} = {''.pdf'', ''.pdf.pdf''}"
    unfolding s by (auto simp: doubleton_eq_iff)
  finally show ?thesis .
qed

lemma mkdir_under_dir:
  assumes "mkdir p fs = (r, fs')" "lookup fs p = Some Dir \<or> lookup fs (parent p) = Some Dir"
    "lookup fs' q \<noteq> lookup fs q"
  shows "q = p"
  using assms
  by (auto simp: mkdir.simps[of p fs] os_mkdir_def lookup_store split: option.splits node.splits if_splits)

lemma paper_dir_cases: "paper_dir rt pdf = rt \<or> parent (paper_dir rt pdf) = rt"
  by (simp add: paper_dir_def joinpath_def parent_def)

lemma try_item_new_dirs:
  assumes t: "try_item cfg srv rt pdf w = (r, w')" and root: "lookup (disk w) rt = Some Dir"
    and q: "lookup (disk w') q = Some Dir" "lookup (disk w) q \<noteq> Some Dir"
  shows "q = paper_dir rt pdf"
proof (cases "grobid_process_fulltext cfg srv pdf (tei_path rt pdf) 3 5 w")
  case (Pair r1 w1)
  from grobid_effect[OF Pair] obtain rm fs1 where
    mk: "mkdir (paper_dir rt pdf) (disk w) = (rm, fs1)"
    and d1: "disk w1 = fs1 \<or> (\<exists>t. disk w1 = store (tei_path rt pdf) (File (Text t)) fs1)"
    unfolding parent_tei_path by blast
  have pre: "lookup (disk w) (paper_dir rt pdf) = Some Dir \<or> lookup (disk w) (parent (paper_dir rt pdf)) = Some Dir"
    using paper_dir_cases[of rt pdf] root by auto
  have "disk w' = disk w1 \<or> disk w' = store (meta_path rt pdf) (File (MetaJson (make_meta pdf))) (disk w1)"
  proof (cases r1)
    case (Inl e)
    with Pair try_item_fail[of cfg srv pdf rt w e w1] t show ?thesis by simp
  next
    case (Inr u)
    with Pair have g: "grobid_process_fulltext cfg srv pdf (tei_path rt pdf) 3 5 w = (Inr (), w1)"
      by simp
    from try_item_after_ok[OF g t] show ?thesis by (auto simp: finish_disk)
  qed
  with d1 q(1) have "lookup fs1 q = Some Dir"
    by (auto simp: lookup_store split: if_splits)
  with q(2) have "lookup fs1 q \<noteq> lookup (disk w) q" by simp
  from mkdir_under_dir[OF mk pre this] show ?thesis .
qed

lemma report_changes:
  assumes "report rt n errs w = (r, w')"
  shows "(lookup (disk w) p = Some Dir \<longrightarrow> lookup (disk w') p = Some Dir)
       \<and> (lookup (disk w) p \<noteq> None \<longrightarrow> lookup (disk w') p \<noteq> None)
       \<and> (lookup (disk w) (tei_path rt' pdf) = Some (File (Text t)) \<longrightarrow>
            lookup (disk w') (tei_path rt' pdf) = Some (File (Text t)))"
  using report_effect[OF assms] tei_neq_log[of rt' pdf rt]
  by (auto simp: lookup_store)

text \<open>
  Claim C4, as amended. When the processing of an item has succeeded, then at the end of the
  loop and of the report its folder is a directory, the TEI file in it holds a text that is
  not empty and contains \<^verbatim>\<open><TEI\<close>, and \<^verbatim>\<open>meta.json\<close> exists. With the output root present, the
  folder is the only directory an item creates. The TEI file and \<^verbatim>\<open>meta.json\<close> lie in the
  folder, the TEI file is named after the folder, and the folder of \<^verbatim>\<open><name>.pdf\<close> with
  \<^verbatim>\<open><name>\<close> not empty is \<^verbatim>\<open><output_root>/<name>\<close>. Two distinct names matched by \<^verbatim>\<open>*.pdf\<close>
  have the same folder exactly when they are \<^verbatim>\<open>.pdf\<close> and \<^verbatim>\<open>.pdf.pdf\<close>.
\<close>

theorem output_folder_per_input:
  "(try_item cfg srv output_root pdf_path w = (Inr (), w1) \<and>
    parse_loop cfg srv output_root items (w1, errs1) = (w2, errs2) \<and>
    report output_root n errs2 w2 = (r, w3) \<longrightarrow>
      lookup (disk w3) (paper_dir output_root pdf_path) = Some Dir \<and>
      (\<exists>t. file_at (disk w3) (tei_path output_root pdf_path) = Some (Text t) \<and>
           t \<noteq> [] \<and> contains ''<TEI'' t) \<and>
      exists (meta_path output_root pdf_path) (disk w3))
   \<and> (try_item cfg srv output_root pdf_path w = (r', w1') \<and>
       lookup (disk w) output_root = Some Dir \<longrightarrow>
         (\<forall>q. lookup (disk w1') q = Some Dir \<and> lookup (disk w) q \<noteq> Some Dir \<longrightarrow>
              q = paper_dir output_root pdf_path))
   \<and> parent (tei_path output_root pdf_path) = paper_dir output_root pdf_path
   \<and> name (tei_path output_root pdf_path) = folder_name pdf_path @ ''.tei.xml''
   \<and> parent (meta_path output_root pdf_path) = paper_dir output_root pdf_path
   \<and> name (meta_path output_root pdf_path) = ''meta.json''
   \<and> (nm \<noteq> [] \<longrightarrow>
        paper_dir output_root (input_dir @ [nm @ ''.pdf'']) = joinpath output_root nm)
   \<and> (endswith ''.pdf'' n1 \<and> endswith ''.pdf'' n2 \<and> n1 \<noteq> n2 \<longrightarrow>
        (paper_dir output_root (input_dir @ [n1]) = paper_dir output_root (input_dir @ [n2]))
        = ({n1, n2} = {''.pdf'', ''.pdf.pdf''}))"
proof -
  have A: "lookup (disk w3) (paper_dir output_root pdf_path) = Some Dir \<and>
      (\<exists>t. file_at (disk w3) (tei_path output_root pdf_path) = Some (Text t) \<and>
           t \<noteq> [] \<and> contains ''<TEI'' t) \<and>
      exists (meta_path output_root pdf_path) (disk w3)"
    if ok: "try_item cfg srv output_root pdf_path w = (Inr (), w1)"
      and loop: "parse_loop cfg srv output_root items (w1, errs1) = (w2, errs2)"
      and rep: "report output_root n errs2 w2 = (r, w3)"
  proof -
    from try_item_success[OF ok] obtain t where
      s1: "lookup (disk w1) (paper_dir output_root pdf_path) = Some Dir"
        "lookup (disk w1) (tei_path output_root pdf_path) = Some (File (Text t))" "tei_text t"
        "lookup (disk w1) (meta_path output_root pdf_path) \<noteq> None"
      by (auto simp: exists_def)
    note c = parse_loop_changes[OF loop]
    from changes_keeps_tei[OF c s1(2,3)] obtain t' where
      t': "lookup (disk w2) (tei_path output_root pdf_path) = Some (File (Text t'))" "tei_text t'"
      by blast
    from report_changes[OF rep] changes_keeps_dir[OF c s1(1)] changes_keeps_exists[OF c s1(4)] t'
    show ?thesis by (auto simp: file_at_def exists_def tei_text_def)
  qed
  have B: "\<forall>q. lookup (disk w1') q = Some Dir \<and> lookup (disk w) q \<noteq> Some Dir \<longrightarrow>
              q = paper_dir output_root pdf_path"
    if "try_item cfg srv output_root pdf_path w = (r', w1')" "lookup (disk w) output_root = Some Dir"
    using try_item_new_dirs[OF that] by blast
  have C: "paper_dir output_root (input_dir @ [nm @ ''.pdf'']) = joinpath output_root nm"
    if "nm \<noteq> []"
    using that by (simp add: paper_dir_def folder_name_pdf)
  have D: "name (tei_path output_root pdf_path) = folder_name pdf_path @ ''.tei.xml''"
    "name (meta_path output_root pdf_path) = ''meta.json''"
    by (simp_all add: tei_path_eq meta_path_eq name_def)
  have E: "(paper_dir output_root (input_dir @ [n1]) = paper_dir output_root (input_dir @ [n2]))
        = ({n1, n2} = {''.pdf'', ''.pdf.pdf''})"
    if "endswith ''.pdf'' n1" "endswith ''.pdf'' n2" "n1 \<noteq> n2"
    using paper_dir_shared[OF that] .
  show ?thesis
  proof (intro conjI impI; (elim conjE)?)
    assume "try_item cfg srv output_root pdf_path w = (Inr (), w1)"
      "parse_loop cfg srv output_root items (w1, errs1) = (w2, errs2)"
      "report output_root n errs2 w2 = (r, w3)"
    from A[OF this]
    show "lookup (disk w3) (paper_dir output_root pdf_path) = Some Dir"
      "\<exists>t. file_at (disk w3) (tei_path output_root pdf_path) = Some (Text t) \<and>
           t \<noteq> [] \<and> contains ''<TEI'' t"
      "exists (meta_path output_root pdf_path) (disk w3)"
      by simp_all
  next
    assume "try_item cfg srv output_root pdf_path w = (r', w1')"
      "lookup (disk w) output_root = Some Dir"
    from B[OF this]
    show "\<forall>q. lookup (disk w1') q = Some Dir \<and> lookup (disk w) q \<noteq> Some Dir \<longrightarrow>
              q = paper_dir output_root pdf_path" .
  next
    show "parent (tei_path output_root pdf_path) = paper_dir output_root pdf_path"
      by (rule parent_tei_path)
    show "parent (meta_path output_root pdf_path) = paper_dir output_root pdf_path"
      by (rule parent_meta_path)
    show "name (tei_path output_root pdf_path) = folder_name pdf_path @ ''.tei.xml''"
      "name (meta_path output_root pdf_path) = ''meta.json''"
      by (rule D)+
  next
    assume "nm \<noteq> []"
    from C[OF this]
    show "paper_dir output_root (input_dir @ [nm @ ''.pdf'']) = joinpath output_root nm" .
  next
    assume "endswith ''.pdf'' n1" "endswith ''.pdf'' n2" "n1 \<noteq> n2"
    from E[OF this]
    show "(paper_dir output_root (input_dir @ [n1]) = paper_dir output_root (input_dir @ [n2]))
        = ({n1, n2} = {''.pdf'', ''.pdf.pdf''})" .
  qed
qed


text \<open>
  The hidden file \<^verbatim>\<open>.pdf\<close> and the file \<^verbatim>\<open>.pdf.pdf\<close> are both matched by \<^verbatim>\<open>*.pdf\<close>, both are
  processed with success, and both get the folder \<^verbatim>\<open>out/.pdf\<close>: the TEI file of the first is
  overwritten by the second.
\<close>

theorem shared_output_folder_counterexample:
  "sort (glob_pdf [''pdfs''] (snd (mkdir [''out''] (disk worldH))))
     = [[''pdfs'', ''.pdf''], [''pdfs'', ''.pdf.pdf'']] \<and>
   paper_dir [''out''] [''pdfs'', ''.pdf''] = [''out'', ''.pdf''] \<and>
   paper_dir [''out''] [''pdfs'', ''.pdf.pdf''] = [''out'', ''.pdf''] \<and>
   parse_pdfs_directory cfgW srv_two [''pdfs''] [''out''] worldH =
     (Inr (),
      \<lparr>disk = [([], Dir), ([''pdfs''], Dir),
          ([''pdfs'', ''.pdf''], File (Text ''%PDF-1.7'')),
          ([''pdfs'', ''.pdf.pdf''], File (Text ''%PDF-1.4'')),
          ([''out''], Dir), ([''out'', ''.pdf''], Dir),
          ([''out'', ''.pdf'', ''.pdf.tei.xml''], File (Text ''<TEI>second</TEI>'')),
          ([''out'', ''.pdf'', ''meta.json''],
           File (MetaJson \<lparr>paper_id = ''.pdf'', forum = [], title = ''.pdf'', pdf_url = [],
                  source_path = [''pdfs'', ''.pdf'']\<rparr>))],
       posts = 2,
       trace = [Glob [''pdfs''], Print (MsgUsingGrobid ''http://localhost:8070''),
          Print (MsgSleep (1 / 5)), Print (MsgParsingFrom [''pdfs'']),
          Print (MsgWritingUnder [''out'']),
          Post ''http://localhost:8070/api/processFulltextDocument'' [''pdfs'', ''.pdf''],
          Write [''out'', ''.pdf'', ''.pdf.tei.xml''], Sleep (1 / 5),
          Write [''out'', ''.pdf'', ''meta.json''],
          Post ''http://localhost:8070/api/processFulltextDocument'' [''pdfs'', ''.pdf.pdf''],
          Write [''out'', ''.pdf'', ''.pdf.tei.xml''], Sleep (1 / 5),
          Print (MsgDone 2), Print (MsgParseErrors 0)]\<rparr>)"
  by code_simp

text \<open>The folder of \<^verbatim>\<open>a.pdf\<close> after a successful item; \<^verbatim>\<open>a.pdf\<close> and \<^verbatim>\<open>b.pdf\<close> do not share one.\<close>

theorem output_folder_per_input_witness:
  "lookup (disk (snd (report [''out''] 1 [] (snd (try_item cfgW srv_flaky [''out''] pdfW worldW)))))
      (paper_dir [''out''] pdfW) = Some Dir
   \<and> (\<exists>t. file_at (disk (snd (report [''out''] 1 [] (snd (try_item cfgW srv_flaky [''out''] pdfW worldW)))))
            (tei_path [''out''] pdfW) = Some (Text t) \<and> t \<noteq> [] \<and> contains ''<TEI'' t)
   \<and> exists (meta_path [''out''] pdfW)
        (disk (snd (report [''out''] 1 [] (snd (try_item cfgW srv_flaky [''out''] pdfW worldW)))))
   \<and> paper_dir [''out''] pdfW = [''out'', ''a'']
   \<and> paper_dir [''out''] ([''pdfs''] @ [''a.pdf'']) \<noteq> paper_dir [''out''] ([''pdfs''] @ [''b.pdf''])"
proof -
  let ?w1 = "snd (try_item cfgW srv_flaky [''out''] pdfW worldW)"
  let ?w3 = "snd (report [''out''] 1 [] ?w1)"
  have ok: "try_item cfgW srv_flaky [''out''] pdfW worldW = (Inr (), ?w1)"
  proof -
    have "fst (try_item cfgW srv_flaky [''out''] pdfW worldW) = Inr ()" by code_simp
    then show ?thesis by (metis prod.collapse)
  qed
  have loop: "parse_loop cfgW srv_flaky [''out''] [] (?w1, []) = (?w1, [])" by simp
  have rep: "report [''out''] 1 [] ?w1 = (fst (report [''out''] 1 [] ?w1), ?w3)" by simp
  have e1: "endswith ''.pdf'' ''a.pdf''" and e2: "endswith ''.pdf'' ''b.pdf''" by code_simp+
  have ne: "''a.pdf'' \<noteq> ''b.pdf''" by simp
  have pd: "paper_dir [''out''] pdfW = [''out'', ''a'']" by code_simp
  note inst = output_folder_per_input[where cfg=cfgW and srv=srv_flaky and output_root="[''out'']"
      and pdf_path=pdfW and w=worldW and ?w1.0="?w1" and items="[]" and ?errs1.0="[]"
      and ?w2.0="?w1" and ?errs2.0="[]" and n=1 and r="fst (report [''out''] 1 [] ?w1)"
      and ?w3.0="?w3" and ?n1.0="''a.pdf''" and ?n2.0="''b.pdf''" and input_dir="[''pdfs'']"
      and r'="Inr ()" and w1'="?w1" and nm="''a''"]
  from inst[THEN conjunct1, rule_format, OF conjI[OF ok conjI[OF loop rep]]]
  have A: "lookup (disk ?w3) (paper_dir [''out''] pdfW) = Some Dir
      \<and> (\<exists>t. file_at (disk ?w3) (tei_path [''out''] pdfW) = Some (Text t) \<and> t \<noteq> [] \<and> contains ''<TEI'' t)
      \<and> exists (meta_path [''out''] pdfW) (disk ?w3)" .
  have "{''a.pdf'', ''b.pdf''} \<noteq> {''.pdf'', ''.pdf.pdf''}" by (simp add: doubleton_eq_iff)
  with inst[THEN conjunct2, THEN conjunct2, THEN conjunct2, THEN conjunct2, THEN conjunct2,
      THEN conjunct2, THEN conjunct2, rule_format, OF conjI[OF e1 conjI[OF e2 ne]]]
  have B: "paper_dir [''out''] ([''pdfs''] @ [''a.pdf'']) \<noteq> paper_dir [''out''] ([''pdfs''] @ [''b.pdf''])"
    by simp
  from A B pd show ?thesis by simp
qed

end
